theory Spec2Isabelle
  imports Complex_Main "HOL-Library.AList"
begin

section \<open>Python values shared by the three components\<close>

text \<open>
  Exceptions of the source are values.  Every method of the three classes wraps its body in
  \<^verbatim>\<open>try: ... except Exception as e: logger.error(...); raise\<close>, which logs and re-raises:
  the exception that leaves the method is the one that was raised inside it.
\<close>

datatype py_error =
    ValueError string
  | IndexError
  | TypeError
  | ZeroDivisionError
  | OverflowError
  | LibraryError string

section \<open>The ledger (\<^verbatim>\<open>blockchain_ledger.py\<close>)\<close>

subsection \<open>Blocks, transactions and the digest\<close>

record transaction =
  model_hash :: string
  user_id :: int
  institution :: string
  tx_timestamp :: string
  transaction_hash :: string

text \<open>
  A block is the dictionary built in \<^verbatim>\<open>_create_genesis_block\<close> and \<^verbatim>\<open>mine_block\<close>.  The key
  \<^verbatim>\<open>'hash'\<close> holds \<^verbatim>\<open>None\<close> until the digest is stored, and \<^verbatim>\<open>'previous_hash'\<close> is a copy of
  another block's \<^verbatim>\<open>'hash'\<close>, so both are optional strings.
\<close>

record block =
  block_number :: int
  timestamp :: string
  transactions :: "transaction list"
  previous_hash :: "string option"
  hash :: "string option"
  nonce :: int

text \<open>
  \<^verbatim>\<open>_calculate_hash\<close> copies the block, drops the key \<^verbatim>\<open>'hash'\<close>, and returns
  \<^verbatim>\<open>hashlib.sha256(json.dumps(block_copy, sort_keys=True, default=str).encode()).hexdigest()\<close>.
  The serialisation followed by SHA-256 is a library function of the five remaining fields; it is
  the parameter \<open>H\<close> of everything below.
\<close>

type_synonym block_body = "int \<times> string \<times> transaction list \<times> string option \<times> int"

type_synonym digest = "block_body \<Rightarrow> string"

definition body :: "block \<Rightarrow> block_body" where
  "body b = (block_number b, timestamp b, transactions b, previous_hash b, nonce b)"

definition calculate_hash :: "digest \<Rightarrow> block \<Rightarrow> string" where
  "calculate_hash H b = H (body b)"

record ledger =
  chain :: "block list"
  pending_transactions :: "transaction list"
  difficulty :: int

subsection \<open>Construction\<close>

definition create_genesis_block :: "digest \<Rightarrow> string \<Rightarrow> block" where
  "create_genesis_block H now =
     (let genesis_block = \<lparr>block_number = 0, timestamp = now, transactions = [],
                             previous_hash = Some ''0'', hash = None, nonce = 0\<rparr>
      in genesis_block\<lparr>hash := Some (calculate_hash H genesis_block)\<rparr>)"

definition new_ledger :: "digest \<Rightarrow> string \<Rightarrow> ledger" where
  "new_ledger H now =
     \<lparr>chain = [create_genesis_block H now], pending_transactions = [], difficulty = 2\<rparr>"

text \<open>
  \<^verbatim>\<open>add_transaction\<close>: the clock reading \<open>now\<close> and the transaction digest \<open>th\<close>
  (SHA-256 of model hash, user id and clock reading) come from the libraries.
\<close>

definition add_transaction ::
  "string \<Rightarrow> string \<Rightarrow> string \<Rightarrow> int \<Rightarrow> string \<Rightarrow> ledger \<Rightarrow> transaction \<times> ledger" where
  "add_transaction now th mh uid inst L =
     (let t = \<lparr>model_hash = mh, user_id = uid, institution = inst,
                tx_timestamp = now, transaction_hash = th\<rparr>
      in (t, L\<lparr>pending_transactions := pending_transactions L @ [t]\<rparr>))"

subsection \<open>Proof of work and mining\<close>

definition startswith :: "string \<Rightarrow> string \<Rightarrow> bool" where
  "startswith s p = (take (length p) s = p)"

text \<open>\<^verbatim>\<open>'0' * self.difficulty\<close>: a non-positive count gives the empty string.\<close>

definition zeros :: "int \<Rightarrow> string" where
  "zeros d = replicate (nat d) (CHR ''0'')"

text \<open>
  The \<^verbatim>\<open>while\<close> loop of \<^verbatim>\<open>_proof_of_work\<close>.  Its state is the local copy \<open>block_copy\<close>,
  the counter and the last digest.  Nothing bounds the search, so the loop is a partial function:
  \<open>None\<close> is the run that never ends.
\<close>

partial_function (option) pow_loop ::
  "digest \<Rightarrow> int \<Rightarrow> block \<Rightarrow> int \<Rightarrow> string \<Rightarrow> string option" where
  "pow_loop H d block_copy n hash_value =
     (if startswith hash_value (zeros d) then Some hash_value
      else (let n' = n + 1; block_copy' = block_copy\<lparr>nonce := n'\<rparr>
            in pow_loop H d block_copy' n' (calculate_hash H block_copy')))"

declare pow_loop.simps [code]

text \<open>
  \<^verbatim>\<open>_proof_of_work(block)\<close> works on \<^verbatim>\<open>block.copy()\<close>: the caller's block is only read, and the
  digest found is the only thing returned.
\<close>

definition proof_of_work :: "digest \<Rightarrow> int \<Rightarrow> block \<Rightarrow> string option" where
  "proof_of_work H d blk = pow_loop H d (blk\<lparr>hash := None\<rparr>) 0 (calculate_hash H blk)"

text \<open>The dictionary \<^verbatim>\<open>new_block\<close> that \<^verbatim>\<open>mine_block\<close> builds before the search.\<close>

definition candidate_block :: "string \<Rightarrow> ledger \<Rightarrow> block" where
  "candidate_block now L =
     \<lparr>block_number = int (length (chain L)), timestamp = now,
      transactions = pending_transactions L,
      previous_hash = hash (last (chain L)), hash = None, nonce = 0\<rparr>"

text \<open>
  \<^verbatim>\<open>mine_block\<close>.  The outer \<open>option\<close> is termination of the search, the sum is the exception
  (\<^verbatim>\<open>self.chain[-1]\<close> on an empty chain), the inner \<open>option\<close> is the \<^verbatim>\<open>None\<close> returned for an
  empty pool.  The only assignment to the new block after the search is
  \<^verbatim>\<open>new_block['hash'] = self._proof_of_work(new_block)\<close>.
\<close>

definition mine_block ::
  "digest \<Rightarrow> string \<Rightarrow> ledger \<Rightarrow> (py_error + block option \<times> ledger) option" where
  "mine_block H now L =
     (if pending_transactions L = [] then Some (Inr (None, L))
      else if chain L = [] then Some (Inl IndexError)
      else
        (let new_block = candidate_block now L
         in case proof_of_work H (difficulty L) new_block of
              None \<Rightarrow> None
            | Some h \<Rightarrow>
                (let new_block' = new_block\<lparr>hash := Some h\<rparr>
                 in Some (Inr (Some new_block',
                      L\<lparr>chain := chain L @ [new_block'], pending_transactions := []\<rparr>)))))"

subsection \<open>Verification\<close>

definition verify_block_integrity :: "digest \<Rightarrow> block \<Rightarrow> bool" where
  "verify_block_integrity H b =
     (let hash_to_verify = hash b; calculated_hash = calculate_hash H (b\<lparr>hash := None\<rparr>)
      in hash_to_verify = Some calculated_hash)"

record integrity_results =
  valid :: bool
  total_blocks :: nat
  invalid_blocks :: "nat list"
  broken_links :: "nat list"

text \<open>One pass of the body of \<^verbatim>\<open>for i in range(1, len(self.chain))\<close>: two separate \<^verbatim>\<open>if\<close>s.\<close>

definition verify_step :: "digest \<Rightarrow> block list \<Rightarrow> nat \<Rightarrow> integrity_results \<Rightarrow> integrity_results" where
  "verify_step H ch i results =
     (let current_block = ch ! i;
          previous_block = ch ! (i - 1);
          results1 = (if \<not> verify_block_integrity H current_block
                      then results\<lparr>valid := False, invalid_blocks := invalid_blocks results @ [i]\<rparr>
                      else results);
          results2 = (if previous_hash current_block \<noteq> hash previous_block
                      then results1\<lparr>valid := False, broken_links := broken_links results1 @ [i]\<rparr>
                      else results1)
      in results2)"

definition verify_chain_integrity :: "digest \<Rightarrow> ledger \<Rightarrow> integrity_results" where
  "verify_chain_integrity H L =
     fold (verify_step H (chain L)) [1 ..< length (chain L)]
       \<lparr>valid = True, total_blocks = length (chain L), invalid_blocks = [], broken_links = []\<rparr>"

subsection \<open>Reading a block\<close>

text \<open>
  Python list indexing: a negative index counts from the end, and an index outside
  \<open>-len .. len - 1\<close> raises \<^verbatim>\<open>IndexError\<close>.
\<close>

definition py_index :: "'a list \<Rightarrow> int \<Rightarrow> py_error + 'a" where
  "py_index xs i =
     (if 0 \<le> i \<and> i < int (length xs) then Inr (xs ! nat i)
      else if i < 0 \<and> - int (length xs) \<le> i then Inr (xs ! nat (int (length xs) + i))
      else Inl IndexError)"

text \<open>\<^verbatim>\<open>get_block\<close>: the only test is \<^verbatim>\<open>block_number < len(self.chain)\<close>.\<close>

definition get_block :: "ledger \<Rightarrow> int \<Rightarrow> py_error + block option" where
  "get_block L bn =
     (if bn < int (length (chain L))
      then (case py_index (chain L) bn of Inl e \<Rightarrow> Inl e | Inr b \<Rightarrow> Inr (Some b))
      else Inr None)"

subsection \<open>A sample chain\<close>

text \<open>
  Concrete data for the closed theorems.  The table holds the values of SHA-256 on the
  serialisations (\<^verbatim>\<open>json.dumps(..., sort_keys=True, default=str)\<close>) of the listed block
  bodies, so \<open>sample_digest\<close> agrees with \<^verbatim>\<open>_calculate_hash\<close> on every body the theorems
  below evaluate.
\<close>

definition sample_tx1 :: transaction where
  "sample_tx1 = \<lparr>model_hash = ''abc'', user_id = 1, institution = ''City Hospital'',
     tx_timestamp = ''2024-01-01T00:00:01'',
     transaction_hash = ''705b7a9c99fcd62f14f84a117e039ce59613e10de4bcabd91e8d28b907cf746f''\<rparr>"

definition sample_tx2 :: transaction where
  "sample_tx2 = \<lparr>model_hash = ''def'', user_id = 2, institution = ''Central Medical Center'',
     tx_timestamp = ''2024-01-01T00:03:00'',
     transaction_hash = ''40588c51831b6bca661a2e0b3d49d8f7adcbc96ff946c8e60abb74ecff65291f''\<rparr>"

definition h_genesis :: string where
  "h_genesis = ''66e4add70649d5ddb21bbf8bbacb243849b2baea623193dd8a80fb191d3ccd5f''"

definition h_block1 :: string where
  "h_block1 = ''00b3386558670a93eba2316c987c75a272d9a007937d7b0d06690c7778a586b8''"

definition h_block2 :: string where
  "h_block2 = ''00f1e3113cfd57e0723a99a8e9a82a5524fec94fea34e7ec32931222e42d792a''"

definition sha256_table :: "(block_body \<times> string) list" where
  "sha256_table =
    [((0, ''2024-01-01T00:00:00'', [], Some ''0'', 0), h_genesis),
     ((0, ''2023-12-31T00:00:00'', [], Some ''0'', 0),
        ''d3bcb02fa94848d48f2c26fe6688e0f418ec1a4d699ab696fbe5e1fe29035f7e''),
     ((1, ''2024-01-01T00:02:59'', [sample_tx1], Some h_genesis, 0),
        ''853704722e5ed477a14914b7e8bfa70c8dbd8535c2d3c1212507dc2c639a9f01''),
     ((1, ''2024-01-01T00:02:59'', [sample_tx1], Some h_genesis, 1),
        ''9e51d4a121d2f27b38e5942b453f13de55f8aff1873278a1a0b30e2ff29166b6''),
     ((1, ''2024-01-01T00:02:59'', [sample_tx1], Some h_genesis, 2),
        ''dbfea39e80682f0f9b732239a5f237b0ae9a1695dc6c49f7af062a4ab0163bc7''),
     ((1, ''2024-01-01T00:02:59'', [sample_tx1], Some h_genesis, 3), h_block1),
     ((1, ''2024-01-01T00:02:59'', [], Some h_genesis, 3),
        ''430165451bb006b777b212a859de28bf6352c8fa63b74b456cfe7692c889d20a''),
     ((2, ''2024-01-01T01:00:38'', [sample_tx2], Some h_block1, 0), h_block2)]"

definition sample_digest :: digest where
  "sample_digest bd = (case map_of sha256_table bd of Some h \<Rightarrow> h | None \<Rightarrow> [])"

definition sample_ledger :: ledger where
  "sample_ledger = snd (add_transaction ''2024-01-01T00:00:01''
      ''705b7a9c99fcd62f14f84a117e039ce59613e10de4bcabd91e8d28b907cf746f''
      ''abc'' 1 ''City Hospital'' (new_ledger sample_digest ''2024-01-01T00:00:00''))"

definition sample_genesis :: block where
  "sample_genesis = \<lparr>block_number = 0, timestamp = ''2024-01-01T00:00:00'', transactions = [],
     previous_hash = Some ''0'', hash = Some h_genesis, nonce = 0\<rparr>"

definition sample_block1 :: block where
  "sample_block1 = \<lparr>block_number = 1, timestamp = ''2024-01-01T00:02:59'',
     transactions = [sample_tx1], previous_hash = Some h_genesis, hash = Some h_block1, nonce = 3\<rparr>"

definition sample_block2 :: block where
  "sample_block2 = \<lparr>block_number = 2, timestamp = ''2024-01-01T01:00:38'',
     transactions = [sample_tx2], previous_hash = Some h_block1, hash = Some h_block2, nonce = 0\<rparr>"

definition sample_chain :: ledger where
  "sample_chain = \<lparr>chain = [sample_genesis, sample_block1, sample_block2],
     pending_transactions = [], difficulty = 2\<rparr>"

definition tampered_block1 :: block where
  "tampered_block1 = sample_block1\<lparr>transactions := []\<rparr>"

definition tampered_genesis :: block where
  "tampered_genesis = sample_genesis\<lparr>timestamp := ''2023-12-31T00:00:00''\<rparr>"

section \<open>The aggregation engine (\<^verbatim>\<open>smpc_engine.py\<close>)\<close>

subsection \<open>Parameter mappings\<close>

text \<open>
  A parameter mapping is a Python \<^verbatim>\<open>dict\<close> from names to values.  The values modelled are
  numbers, strings and \<^verbatim>\<open>None\<close>, and flat lists and tuples of them; a Python \<^verbatim>\<open>bool\<close> is the
  number it is.  Nested sequences and nested objects are outside the model.  A \<^verbatim>\<open>dict\<close> is an
  association list in insertion order; \<open>map_of\<close> reads it and \<open>AList.update\<close> is the
  assignment \<^verbatim>\<open>d[k] = v\<close> (in place for a key that is present, appended otherwise).  A
  well-formed \<^verbatim>\<open>dict\<close> has distinct keys.
\<close>

datatype atom = Num real | Str string | Null

datatype pvalue = Scalar atom | Seq "atom list" | Tup "atom list"

type_synonym pdict = "(string \<times> pvalue) list"

text \<open>
  Numbers are real numbers: the rounding of floating-point arithmetic is not modelled, nor are
  \<^verbatim>\<open>nan\<close> and the infinities.  The range of the doubles is modelled.  Every finite double is
  smaller in magnitude than \<open>dbl_limit\<close>, so a number at or beyond it is a Python \<^verbatim>\<open>int\<close>, and
  turning such an \<^verbatim>\<open>int\<close> into a float, as \<^verbatim>\<open>float(v)\<close> and \<^verbatim>\<open>v + 0.5\<close> do, raises
  \<^verbatim>\<open>OverflowError\<close>; below the limit the conversion succeeds.
\<close>

definition dbl_limit :: real where
  "dbl_limit = 2 ^ 1024 - 2 ^ 970"

fun in_range :: "atom \<Rightarrow> bool" where
  "in_range (Num x) = (\<bar>x\<bar> < dbl_limit)"
| "in_range (Str s) = True"
| "in_range Null = True"

text \<open>
  \<^verbatim>\<open>np.array\<close> of a list of numbers is an array of 64-bit integers or of doubles as long as
  every \<^verbatim>\<open>int\<close> in the list lies within the range of the 64-bit integers; a list with an
  \<^verbatim>\<open>int\<close> outside that range gives an array of another kind, of Python objects as a rule.  A
  number below \<open>int64_limit\<close> in magnitude is a float or an \<^verbatim>\<open>int\<close> within that range.
\<close>

definition int64_limit :: real where
  "int64_limit = 2 ^ 63"

fun fits_int64 :: "atom \<Rightarrow> bool" where
  "fits_int64 (Num x) = (\<bar>x\<bar> < int64_limit)"
| "fits_int64 (Str s) = True"
| "fits_int64 Null = True"

text \<open>
  \<^verbatim>\<open>json.dumps\<close> writes a tuple as a JSON array, exactly as it writes a list; what it
  serialises is the JSON value of its argument.
\<close>

fun json_value :: "pvalue \<Rightarrow> pvalue" where
  "json_value (Scalar a) = Scalar a"
| "json_value (Seq vs) = Seq vs"
| "json_value (Tup vs) = Seq vs"

definition jsonify :: "pdict \<Rightarrow> pdict" where
  "jsonify parameters = map (\<lambda>(k, v). (k, json_value v)) parameters"

text \<open>
  Inside \<^verbatim>\<open>_average_parameters\<close>, the entries of \<^verbatim>\<open>param_values\<close> are \<^verbatim>\<open>np.array(value)\<close> for a
  list and \<^verbatim>\<open>float(value)\<close> otherwise, and the values of the aggregated mapping are a Python
  float, a Python list (from \<^verbatim>\<open>tolist()\<close>), or a numpy array (when \<^verbatim>\<open>sum\<close> met an array after a
  float, and numpy broadcast the addition).
\<close>

datatype npval = NFloat real | NArr "atom list"

datatype aggval = AFloat real | AList "real list" | ANdarray "real list"

subsection \<open>Encryption and decryption\<close>

text \<open>
  The engine's state is the key made in \<^verbatim>\<open>__init__\<close>; \<^verbatim>\<open>cipher_suite\<close> is \<^verbatim>\<open>Fernet(master_key)\<close>.
  \<^verbatim>\<open>json\<close>, \<^verbatim>\<open>cryptography.fernet\<close> and \<^verbatim>\<open>base64\<close> are libraries: they are the fields of \<open>libs\<close>.
  \<^verbatim>\<open>Fernet.encrypt\<close> draws a fresh initialisation vector and reads the clock on every call; that
  randomness is its argument of type \<open>'r\<close>.  Byte strings and text are both \<open>string\<close>.
  The last field is numpy at work on arrays of Python objects: on them its arithmetic is
  Python's, exact on \<^verbatim>\<open>int\<close>s and raising \<^verbatim>\<open>OverflowError\<close> where an \<^verbatim>\<open>int\<close> beyond the doubles
  meets a float, so the result depends on which numbers are \<^verbatim>\<open>int\<close>s, which the numbers of
  this model do not record.  \<open>object_average\<close> is what the averaging expression of
  \<^verbatim>\<open>_average_parameters\<close> gives when \<^verbatim>\<open>param_values\<close> holds an array with a number of magnitude
  \<open>int64_limit\<close> or more.
\<close>

record engine =
  master_key :: string

record 'r libs =
  json_dumps :: "pdict \<Rightarrow> string"
  json_loads :: "string \<Rightarrow> py_error + pdict"
  fernet_encrypt :: "string \<Rightarrow> 'r \<Rightarrow> string \<Rightarrow> string"
  fernet_decrypt :: "string \<Rightarrow> string \<Rightarrow> py_error + string"
  b64encode :: "string \<Rightarrow> string"
  b64decode :: "string \<Rightarrow> py_error + string"
  object_average :: "npval list \<Rightarrow> py_error + aggval"

text \<open>
  Methods of the engine take the engine and return it next to their result, so that a change
  of \<^verbatim>\<open>self\<close> would show.  None of the methods below assigns to an attribute of \<^verbatim>\<open>self\<close>.
\<close>

definition encrypt_parameters ::
  "'r libs \<Rightarrow> 'r \<Rightarrow> pdict \<Rightarrow> engine \<Rightarrow> (py_error + string) \<times> engine" where
  "encrypt_parameters lib rnd parameters e =
     (let json_data = json_dumps lib (jsonify parameters);
          encrypted_data = fernet_encrypt lib (master_key e) rnd json_data;
          encrypted_str = b64encode lib encrypted_data
      in (Inr encrypted_str, e))"

definition decrypt_parameters ::
  "'r libs \<Rightarrow> string \<Rightarrow> engine \<Rightarrow> (py_error + pdict) \<times> engine" where
  "decrypt_parameters lib encrypted_data e =
     (case b64decode lib encrypted_data of
        Inl err \<Rightarrow> (Inl err, e)
      | Inr encrypted_bytes \<Rightarrow>
          (case fernet_decrypt lib (master_key e) encrypted_bytes of
             Inl err \<Rightarrow> (Inl err, e)
           | Inr decrypted_data \<Rightarrow> (json_loads lib decrypted_data, e)))"

subsection \<open>Averaging\<close>

text \<open>
  \<^verbatim>\<open>float(value)\<close>: a number within the range of the doubles is itself, an \<^verbatim>\<open>int\<close> beyond it
  raises \<^verbatim>\<open>OverflowError\<close>, \<^verbatim>\<open>None\<close> raises \<^verbatim>\<open>TypeError\<close>, and a string is parsed
  (\<^verbatim>\<open>ValueError\<close> when it is no number); the parser is the parameter \<open>parse\<close>.
\<close>

fun py_float :: "(string \<Rightarrow> real option) \<Rightarrow> atom \<Rightarrow> py_error + real" where
  "py_float parse (Num x) = (if \<bar>x\<bar> < dbl_limit then Inr x else Inl OverflowError)"
| "py_float parse (Str s) =
     (case parse s of None \<Rightarrow> Inl (ValueError ''could not convert string to float'')
                    | Some x \<Rightarrow> Inr x)"
| "py_float parse Null = Inl TypeError"

text \<open>
  The inner loop \<^verbatim>\<open>for params in parameters_list\<close>, for one parameter name.  A tuple is no
  \<^verbatim>\<open>list\<close>, so it goes to \<^verbatim>\<open>float(value)\<close>, which raises \<^verbatim>\<open>TypeError\<close>.
\<close>

fun collect_values ::
  "(string \<Rightarrow> real option) \<Rightarrow> string \<Rightarrow> pdict list \<Rightarrow> py_error + npval list" where
  "collect_values parse param_name [] = Inr []"
| "collect_values parse param_name (params # rest) =
     (case map_of params param_name of
        None \<Rightarrow> collect_values parse param_name rest
      | Some (Seq vs) \<Rightarrow>
          (case collect_values parse param_name rest of
             Inl err \<Rightarrow> Inl err
           | Inr param_values \<Rightarrow> Inr (NArr vs # param_values))
      | Some (Tup vs) \<Rightarrow> Inl TypeError
      | Some (Scalar a) \<Rightarrow>
          (case py_float parse a of
             Inl err \<Rightarrow> Inl err
           | Inr x \<Rightarrow>
               (case collect_values parse param_name rest of
                  Inl err \<Rightarrow> Inl err
                | Inr param_values \<Rightarrow> Inr (NFloat x # param_values))))"

fun arr_of :: "npval \<Rightarrow> atom list option" where
  "arr_of (NArr vs) = Some vs"
| "arr_of (NFloat x) = None"

fun num_of :: "atom \<Rightarrow> real option" where
  "num_of (Num x) = Some x"
| "num_of (Str s) = None"
| "num_of Null = None"

definition nums_of :: "atom list \<Rightarrow> real list option" where
  "nums_of vs = those (map num_of vs)"

text \<open>
  \<^verbatim>\<open>np.mean(param_values, axis=0).tolist()\<close>, as numpy 1.24 and later do it: the list must
  convert to one rectangular array (all entries arrays of one length, else \<^verbatim>\<open>ValueError\<close>) of
  numbers (else \<^verbatim>\<open>TypeError\<close>); the result is the list of column means.
\<close>

definition column_means :: "real list list \<Rightarrow> real list" where
  "column_means rows =
     map (\<lambda>j. (\<Sum>r\<leftarrow>rows. r ! j) / real (length rows)) [0 ..< length (hd rows)]"

definition np_mean_axis0 :: "npval list \<Rightarrow> py_error + real list" where
  "np_mean_axis0 param_values =
     (case those (map arr_of param_values) of
        None \<Rightarrow> Inl (ValueError ''numpy: inhomogeneous shape'')
      | Some rows \<Rightarrow>
          if \<not> list_all (\<lambda>r. length r = length (hd rows)) rows
          then Inl (ValueError ''numpy: inhomogeneous shape'')
          else (case those (map nums_of rows) of
                  None \<Rightarrow> Inl TypeError
                | Some nrows \<Rightarrow> Inr (column_means nrows)))"

definition broadcast_add :: "real list \<Rightarrow> real list \<Rightarrow> py_error + real list" where
  "broadcast_add xs ys =
     (if length xs = length ys then Inr (map2 (+) xs ys)
      else if length xs = 1 then Inr (map (\<lambda>y. hd xs + y) ys)
      else if length ys = 1 then Inr (map (\<lambda>x. x + hd ys) xs)
      else Inl (ValueError ''numpy: operands could not be broadcast together''))"

fun np_add :: "aggval \<Rightarrow> npval \<Rightarrow> py_error + aggval" where
  "np_add (AFloat a) (NFloat b) = Inr (AFloat (a + b))"
| "np_add (AFloat a) (NArr vs) =
     (case nums_of vs of None \<Rightarrow> Inl TypeError
                       | Some ys \<Rightarrow> Inr (ANdarray (map (\<lambda>y. a + y) ys)))"
| "np_add (ANdarray xs) (NFloat b) = Inr (ANdarray (map (\<lambda>x. x + b) xs))"
| "np_add (ANdarray xs) (NArr vs) =
     (case nums_of vs of None \<Rightarrow> Inl TypeError
                       | Some ys \<Rightarrow> map_sum id ANdarray (broadcast_add xs ys))"
| "np_add (AList xs) v = Inl TypeError"

text \<open>\<^verbatim>\<open>sum(param_values)\<close>: left to right, starting from \<^verbatim>\<open>0\<close>.\<close>

fun py_sum :: "aggval \<Rightarrow> npval list \<Rightarrow> py_error + aggval" where
  "py_sum acc [] = Inr acc"
| "py_sum acc (v # vs) = (case np_add acc v of Inl err \<Rightarrow> Inl err | Inr acc' \<Rightarrow> py_sum acc' vs)"

fun div_len :: "aggval \<Rightarrow> nat \<Rightarrow> aggval" where
  "div_len (AFloat s) n = AFloat (s / real n)"
| "div_len (ANdarray xs) n = ANdarray (map (\<lambda>x. x / real n) xs)"
| "div_len (AList xs) n = AList xs"

text \<open>An array of \<^verbatim>\<open>param_values\<close> that holds a number of magnitude \<open>int64_limit\<close> or more.\<close>

fun has_big :: "npval \<Rightarrow> bool" where
  "has_big (NArr vs) = (\<not> list_all fits_int64 vs)"
| "has_big (NFloat x) = False"

text \<open>
  The \<^verbatim>\<open>if isinstance(param_values[0], np.ndarray)\<close> of a non-empty \<^verbatim>\<open>param_values\<close>.  When an
  array holds a number of magnitude \<open>int64_limit\<close> or more, numpy may compute on Python
  objects, and the result is the library's, \<open>objavg\<close>.
\<close>

definition average_values ::
  "(npval list \<Rightarrow> py_error + aggval) \<Rightarrow> npval list \<Rightarrow> py_error + aggval" where
  "average_values objavg param_values =
     (if list_ex has_big param_values then objavg param_values
      else (case hd param_values of
              NArr vs \<Rightarrow> map_sum id AList (np_mean_axis0 param_values)
            | NFloat x \<Rightarrow>
                (case py_sum (AFloat 0) param_values of
                   Inl err \<Rightarrow> Inl err
                 | Inr s \<Rightarrow> Inr (div_len s (length param_values)))))"

text \<open>The outer loop \<^verbatim>\<open>for param_name in parameters_list[0].keys()\<close>.\<close>

fun average_loop ::
  "(npval list \<Rightarrow> py_error + aggval) \<Rightarrow> (string \<Rightarrow> real option) \<Rightarrow> pdict list \<Rightarrow> string list
     \<Rightarrow> (string \<times> aggval) list \<Rightarrow> py_error + (string \<times> aggval) list" where
  "average_loop objavg parse parameters_list [] aggregated = Inr aggregated"
| "average_loop objavg parse parameters_list (param_name # names) aggregated =
     (case collect_values parse param_name parameters_list of
        Inl err \<Rightarrow> Inl err
      | Inr param_values \<Rightarrow>
          if param_values = [] then average_loop objavg parse parameters_list names aggregated
          else (case average_values objavg param_values of
                  Inl err \<Rightarrow> Inl err
                | Inr averaged \<Rightarrow>
                    average_loop objavg parse parameters_list names
                      (AList.update param_name averaged aggregated)))"

definition average_parameters ::
  "(npval list \<Rightarrow> py_error + aggval) \<Rightarrow> (string \<Rightarrow> real option) \<Rightarrow> pdict list
     \<Rightarrow> py_error + (string \<times> aggval) list" where
  "average_parameters objavg parse parameters_list =
     (if parameters_list = [] then Inr []
      else average_loop objavg parse parameters_list (map fst (hd parameters_list)) [])"

subsection \<open>Secure aggregation\<close>

text \<open>The loop that decrypts every payload, in order; the first exception ends it.\<close>

fun decrypt_all :: "'r libs \<Rightarrow> string list \<Rightarrow> engine \<Rightarrow> (py_error + pdict list) \<times> engine" where
  "decrypt_all lib [] e = (Inr [], e)"
| "decrypt_all lib (encrypted_params # rest) e =
     (case decrypt_parameters lib encrypted_params e of
        (Inl err, e') \<Rightarrow> (Inl err, e')
      | (Inr decrypted, e') \<Rightarrow>
          (case decrypt_all lib rest e' of
             (Inl err, e'') \<Rightarrow> (Inl err, e'')
           | (Inr decrypted_list, e'') \<Rightarrow> (Inr (decrypted # decrypted_list), e'')))"

definition secure_aggregate ::
  "'r libs \<Rightarrow> (string \<Rightarrow> real option) \<Rightarrow> string list \<Rightarrow> engine
     \<Rightarrow> (py_error + (string \<times> aggval) list) \<times> engine" where
  "secure_aggregate lib parse encrypted_parameters_list e =
     (if encrypted_parameters_list = [] then (Inl (ValueError ''No parameters to aggregate''), e)
      else (case decrypt_all lib encrypted_parameters_list e of
              (Inl err, e') \<Rightarrow> (Inl err, e')
            | (Inr decrypted_list, e') \<Rightarrow>
                (average_parameters (object_average lib) parse decrypted_list, e')))"

subsection \<open>Differential-privacy noise\<close>

text \<open>
  \<^verbatim>\<open>np.random.laplace(0, scale)\<close> is the parameter \<open>laplace\<close>: from the scale and the state of
  numpy's generator it gives a sample and the next state, or the exception numpy raises for a
  scale it refuses.  In \<^verbatim>\<open>v + np.random.laplace(0, scale)\<close> the sample is drawn before the
  addition is tried.  Adding a float to a string or to \<^verbatim>\<open>None\<close> raises \<^verbatim>\<open>TypeError\<close>, and adding
  it to an \<^verbatim>\<open>int\<close> beyond the range of the doubles raises \<^verbatim>\<open>OverflowError\<close>.
\<close>

type_synonym 'g sampler = "real \<Rightarrow> 'g \<Rightarrow> py_error + real \<times> 'g"

fun noisy_list :: "'g sampler \<Rightarrow> real \<Rightarrow> atom list \<Rightarrow> 'g \<Rightarrow> py_error + atom list \<times> 'g" where
  "noisy_list laplace scale [] g = Inr ([], g)"
| "noisy_list laplace scale (v # vs) g =
     (case laplace scale g of
        Inl err \<Rightarrow> Inl err
      | Inr (noise, g') \<Rightarrow>
          (case v of
             Num x \<Rightarrow>
               if \<bar>x\<bar> < dbl_limit
               then (case noisy_list laplace scale vs g' of
                       Inl err \<Rightarrow> Inl err
                     | Inr (ws, g'') \<Rightarrow> Inr (Num (x + noise) # ws, g''))
               else Inl OverflowError
           | Str s \<Rightarrow> Inl TypeError
           | Null \<Rightarrow> Inl TypeError))"

text \<open>
  The loop \<^verbatim>\<open>for key, value in parameters.items()\<close> with its three branches: a number, a
  list, and the \<^verbatim>\<open>else\<close> branch, which is written out for the three remaining kinds of value
  (a tuple is neither a number nor a \<^verbatim>\<open>list\<close>).
\<close>

fun noise_loop ::
  "'g sampler \<Rightarrow> real \<Rightarrow> pdict \<Rightarrow> pdict \<Rightarrow> 'g \<Rightarrow> py_error + pdict \<times> 'g" where
  "noise_loop laplace scale [] noisy_params g = Inr (noisy_params, g)"
| "noise_loop laplace scale ((key, Scalar (Num x)) # rest) noisy_params g =
     (case laplace scale g of
        Inl err \<Rightarrow> Inl err
      | Inr (noise, g') \<Rightarrow>
          if \<bar>x\<bar> < dbl_limit
          then noise_loop laplace scale rest
                 (AList.update key (Scalar (Num (x + noise))) noisy_params) g'
          else Inl OverflowError)"
| "noise_loop laplace scale ((key, Seq vs) # rest) noisy_params g =
     (case noisy_list laplace scale vs g of
        Inl err \<Rightarrow> Inl err
      | Inr (noisy_value, g') \<Rightarrow>
          noise_loop laplace scale rest (AList.update key (Seq noisy_value) noisy_params) g')"
| "noise_loop laplace scale ((key, Scalar (Str s)) # rest) noisy_params g =
     noise_loop laplace scale rest (AList.update key (Scalar (Str s)) noisy_params) g"
| "noise_loop laplace scale ((key, Scalar Null) # rest) noisy_params g =
     noise_loop laplace scale rest (AList.update key (Scalar Null) noisy_params) g"
| "noise_loop laplace scale ((key, Tup vs) # rest) noisy_params g =
     noise_loop laplace scale rest (AList.update key (Tup vs) noisy_params) g"

text \<open>
  \<^verbatim>\<open>scale = sensitivity / epsilon\<close>.  The result of Python's division depends on whether an
  operand is an \<^verbatim>\<open>int\<close> or a float, so the two arguments are of type \<open>pynum\<close>; a \<open>PyFloat\<close> is
  a finite double.  Two \<^verbatim>\<open>int\<close>s are divided exactly and the quotient is rounded, which raises
  \<^verbatim>\<open>OverflowError\<close> when the quotient is beyond the doubles.  With a float operand, the
  \<^verbatim>\<open>int\<close> operand is turned into a float first, which raises \<^verbatim>\<open>OverflowError\<close> when it is
  beyond the doubles, also when the divisor is zero.  Otherwise a zero divisor raises
  \<^verbatim>\<open>ZeroDivisionError\<close>.
\<close>

datatype pynum = PyInt int | PyFloat real

fun num_val :: "pynum \<Rightarrow> real" where
  "num_val (PyInt i) = real_of_int i"
| "num_val (PyFloat x) = x"

fun py_truediv :: "pynum \<Rightarrow> pynum \<Rightarrow> py_error + real" where
  "py_truediv (PyInt a) (PyInt b) =
     (if b = 0 then Inl ZeroDivisionError
      else if \<bar>real_of_int a / real_of_int b\<bar> < dbl_limit
      then Inr (real_of_int a / real_of_int b)
      else Inl OverflowError)"
| "py_truediv (PyInt a) (PyFloat y) =
     (if \<not> \<bar>real_of_int a\<bar> < dbl_limit then Inl OverflowError
      else if y = 0 then Inl ZeroDivisionError
      else Inr (real_of_int a / y))"
| "py_truediv (PyFloat x) (PyInt b) =
     (if \<not> \<bar>real_of_int b\<bar> < dbl_limit then Inl OverflowError
      else if b = 0 then Inl ZeroDivisionError
      else Inr (x / real_of_int b))"
| "py_truediv (PyFloat x) (PyFloat y) =
     (if y = 0 then Inl ZeroDivisionError else Inr (x / y))"

definition add_differential_privacy_noise ::
  "'g sampler \<Rightarrow> pdict \<Rightarrow> pynum \<Rightarrow> pynum \<Rightarrow> 'g \<Rightarrow> py_error + pdict \<times> 'g" where
  "add_differential_privacy_noise laplace parameters epsilon sensitivity g =
     (case py_truediv sensitivity epsilon of
        Inl err \<Rightarrow> Inl err
      | Inr scale \<Rightarrow> noise_loop laplace scale parameters [] g)"

subsection \<open>Sample libraries\<close>

text \<open>
  Small stand-ins for the libraries, for the closed theorems: a framing that can be checked
  and undone for base64, a cipher that prefixes the key and one fresh character, a JSON codec
  given by a table of JSON values, and an average of object arrays that always raises.
\<close>

definition toy_json_table :: "(pdict \<times> string) list" where
  "toy_json_table =
     [([(''w'', Scalar (Num 1))], ''{w: 1.0}''),
      ([(''w'', Scalar (Num 2))], ''{w: 2.0}''),
      ([(''w'', Scalar (Num 3))], ''{w: 3.0}''),
      ([(''w'', Scalar (Num 2)), (''b'', Scalar (Num 5))], ''{w: 2.0, b: 5.0}''),
      ([(''v'', Seq [Num 1, Num 2])], ''{v: [1.0, 2.0]}''),
      ([(''v'', Seq [Num 1, Num 2]), (''note'', Scalar (Str ''svm''))], ''{v: [1.0, 2.0], note: svm}'')]"

definition toy_libs :: "char libs" where
  "toy_libs =
     \<lparr>json_dumps = (\<lambda>p. case map_of toy_json_table p of Some s \<Rightarrow> s | None \<Rightarrow> ''?''),
      json_loads = (\<lambda>s. case map_of (map (\<lambda>(p, t). (t, p)) toy_json_table) s of
                           Some p \<Rightarrow> Inr p
                         | None \<Rightarrow> Inl (ValueError ''JSONDecodeError'')),
      fernet_encrypt = (\<lambda>k iv m. k @ iv # m),
      fernet_decrypt = (\<lambda>k c. if take (length k) c = k \<and> length k < length c
                               then Inr (drop (Suc (length k)) c)
                               else Inl (LibraryError ''InvalidToken'')),
      b64encode = (\<lambda>s. ''b64:'' @ s),
      b64decode = (\<lambda>s. if take 4 s = ''b64:'' then Inr (drop 4 s)
                        else Inl (LibraryError ''binascii.Error'')),
      object_average = (\<lambda>param_values. Inl OverflowError)\<rparr>"

definition toy_engine :: engine where
  "toy_engine = \<lparr>master_key = ''k3y''\<rparr>"

definition toy_encrypt :: "char \<Rightarrow> pdict \<Rightarrow> string" where
  "toy_encrypt iv p =
     (case fst (encrypt_parameters toy_libs iv p toy_engine) of Inr s \<Rightarrow> s | Inl err \<Rightarrow> [])"

definition toy_sampler :: "nat sampler" where
  "toy_sampler scale g = Inr (scale * (real g + 1) / 8, Suc g)"

definition sample_parameters :: pdict where
  "sample_parameters =
     [(''bias'', Scalar (Num 4)), (''v'', Seq [Num 1, Num 2]), (''note'', Scalar (Str ''svm'')),
      (''extra'', Scalar Null), (''shape'', Tup [Num 2, Num 3])]"

subsection \<open>Vocabulary of the claims\<close>

text \<open>
  The values that the payloads hold under one parameter name, in payload order, with the
  payloads that lack the name left out: "the payloads that contain it" of the specification.
\<close>

definition present :: "string \<Rightarrow> pdict list \<Rightarrow> pvalue list" where
  "present param_name parameters_list =
     List.map_filter (\<lambda>params. map_of params param_name) parameters_list"

text \<open>A mapping without tuples: the values that JSON gives back as they were.\<close>

fun no_tuple :: "pvalue \<Rightarrow> bool" where
  "no_tuple (Scalar a) = True"
| "no_tuple (Seq vs) = True"
| "no_tuple (Tup vs) = False"

definition tuple_free :: "pdict \<Rightarrow> bool" where
  "tuple_free parameters = list_all (\<lambda>(k, v). no_tuple v) parameters"

text \<open>
  A mapping whose numbers, as scalars and inside lists, all lie within the range of the
  doubles; a mapping whose lists hold only numbers; a list with an element that is no number.
\<close>

fun value_in_range :: "pvalue \<Rightarrow> bool" where
  "value_in_range (Scalar a) = in_range a"
| "value_in_range (Seq vs) = list_all in_range vs"
| "value_in_range (Tup vs) = True"

definition numbers_in_range :: "pdict \<Rightarrow> bool" where
  "numbers_in_range parameters = list_all (\<lambda>(k, v). value_in_range v) parameters"

fun is_num :: "atom \<Rightarrow> bool" where
  "is_num (Num x) = True"
| "is_num (Str s) = False"
| "is_num Null = False"

fun numeric_list :: "pvalue \<Rightarrow> bool" where
  "numeric_list (Scalar a) = True"
| "numeric_list (Seq vs) = list_all is_num vs"
| "numeric_list (Tup vs) = True"

definition lists_numeric :: "pdict \<Rightarrow> bool" where
  "lists_numeric parameters = list_all (\<lambda>(k, v). numeric_list v) parameters"

section \<open>The round coordinator (\<^verbatim>\<open>federated_learning.py\<close>)\<close>

subsection \<open>Participants\<close>

text \<open>
  The value stored under a participant id: the dictionary written by \<^verbatim>\<open>register_participant\<close>,
  with the two keys that \<^verbatim>\<open>update_participant_stats\<close> adds later.
\<close>

record participant =
  p_institution :: string
  p_status :: string
  registered_at :: string
  rounds_participated :: int
  model_updates_submitted :: int
  last_accuracy :: "real option"
  last_update :: "string option"

text \<open>
  The four attributes set in \<^verbatim>\<open>__init__\<close>.  \<^verbatim>\<open>self.participants\<close> is the only attribute that
  holds participant records; no method assigns to \<^verbatim>\<open>global_model\<close> or \<^verbatim>\<open>training_history\<close>.
\<close>

record orchestrator =
  current_round :: int
  participants :: "string \<rightharpoonup> participant"
  global_model :: "real list option"
  training_history :: "real list"

definition new_orchestrator :: orchestrator where
  "new_orchestrator =
     \<lparr>current_round = 0, participants = Map.empty, global_model = None, training_history = []\<rparr>"

text \<open>The dictionaries returned to the caller are association lists of strings.\<close>

type_synonym reply = "(string \<times> string) list"

definition initialize_round :: "int \<Rightarrow> orchestrator \<Rightarrow> orchestrator" where
  "initialize_round round_number orch = orch\<lparr>current_round := round_number\<rparr>"

definition register_participant ::
  "string \<Rightarrow> string \<Rightarrow> string \<Rightarrow> orchestrator \<Rightarrow> reply \<times> orchestrator" where
  "register_participant now participant_id institution_name orch =
     (if participant_id \<in> dom (participants orch)
      then ([(''status'', ''already_registered'')], orch)
      else ([(''status'', ''success''), (''participant_id'', participant_id),
             (''message'', ''Participant registered successfully'')],
            orch\<lparr>participants := (participants orch)(participant_id \<mapsto>
              \<lparr>p_institution = institution_name, p_status = ''active'', registered_at = now,
               rounds_participated = 0, model_updates_submitted = 0,
               last_accuracy = None, last_update = None\<rparr>)\<rparr>))"

definition update_participant_stats ::
  "string \<Rightarrow> string \<Rightarrow> real \<Rightarrow> orchestrator \<Rightarrow> (py_error + participant) \<times> orchestrator" where
  "update_participant_stats now participant_id accuracy orch =
     (case participants orch participant_id of
        None \<Rightarrow> (Inl (ValueError (''Participant '' @ participant_id @ '' not found'')), orch)
      | Some p \<Rightarrow>
          (let p' = p\<lparr>rounds_participated := rounds_participated p + 1,
                       model_updates_submitted := model_updates_submitted p + 1,
                       last_accuracy := Some accuracy, last_update := Some now\<rparr>
           in (Inr p', orch\<lparr>participants := (participants orch)(participant_id \<mapsto> p')\<rparr>)))"

text \<open>\<^verbatim>\<open>remove_participant\<close>: the statement is \<^verbatim>\<open>del self.participants[participant_id]\<close>.\<close>

definition remove_participant :: "string \<Rightarrow> orchestrator \<Rightarrow> reply \<times> orchestrator" where
  "remove_participant participant_id orch =
     (if participant_id \<in> dom (participants orch)
      then ([(''status'', ''success''), (''message'', ''Participant removed'')],
            orch\<lparr>participants := (participants orch)(participant_id := None)\<rparr>)
      else ([(''status'', ''error''), (''message'', ''Participant not found'')], orch))"

text \<open>The state-changing methods as operations, and a run of them; an exception leaves the state.\<close>

datatype operation =
    InitializeRound int
  | Register string string string
  | UpdateStats string string real
  | Remove string

fun apply_operation :: "operation \<Rightarrow> orchestrator \<Rightarrow> orchestrator" where
  "apply_operation (InitializeRound n) orch = initialize_round n orch"
| "apply_operation (Register now pid inst) orch = snd (register_participant now pid inst orch)"
| "apply_operation (UpdateStats now pid acc) orch = snd (update_participant_stats now pid acc orch)"
| "apply_operation (Remove pid) orch = snd (remove_participant pid orch)"

definition run_operations :: "operation list \<Rightarrow> orchestrator \<Rightarrow> orchestrator" where
  "run_operations ops orch = fold apply_operation ops orch"

subsection \<open>Averaging of weight vectors\<close>

text \<open>
  Weight vectors are lists of reals and a model-weights list is a list of them.  The numpy calls
  are modelled as numpy 1.24 and later behave: \<^verbatim>\<open>np.array\<close> of rows of different lengths raises
  \<^verbatim>\<open>ValueError\<close>; \<^verbatim>\<open>np.average\<close> raises \<^verbatim>\<open>ValueError\<close> when there are not as many weights as
  rows and \<^verbatim>\<open>ZeroDivisionError\<close> when the weights sum to zero.  \<^verbatim>\<open>weights / weights.sum()\<close>
  with a zero sum raises nothing in numpy: the weights become infinities of both signs, or
  \<^verbatim>\<open>nan\<close>, their sum is \<^verbatim>\<open>nan\<close>, and \<^verbatim>\<open>np.average\<close> returns \<^verbatim>\<open>nan\<close> in every column.  A
  returned list is therefore a list of reals or a list of so many \<^verbatim>\<open>nan\<close>.
\<close>

datatype float_list = Floats "real list" | Nans nat

definition rectangular :: "real list list \<Rightarrow> bool" where
  "rectangular rows = list_all (\<lambda>r. length r = length (hd rows)) rows"

definition np_average :: "real list list \<Rightarrow> real list \<Rightarrow> py_error + real list" where
  "np_average rows wgt =
     (if length wgt \<noteq> length rows
      then Inl (ValueError ''numpy: as many weights as rows expected'')
      else if sum_list wgt = 0 then Inl ZeroDivisionError
      else Inr (map (\<lambda>j. (\<Sum>i\<leftarrow>[0 ..< length rows]. rows ! i ! j * wgt ! i) / sum_list wgt)
                  [0 ..< length (hd rows)]))"

definition federated_averaging ::
  "real list list \<Rightarrow> real list option \<Rightarrow> py_error + float_list" where
  "federated_averaging model_weights_list weights =
     (if model_weights_list = [] then Inl (ValueError ''No model weights provided'')
      else if \<not> rectangular model_weights_list then Inl (ValueError ''numpy: inhomogeneous shape'')
      else (case weights of
              None \<Rightarrow> Inr (Floats (column_means model_weights_list))
            | Some ws \<Rightarrow>
                if length ws \<noteq> length model_weights_list
                then Inl (ValueError ''numpy: as many weights as rows expected'')
                else if sum_list ws = 0
                then Inr (if hd model_weights_list = [] then Floats []
                          else Nans (length (hd model_weights_list)))
                else map_sum id Floats
                       (np_average model_weights_list (map (\<lambda>w. w / sum_list ws) ws))))"

text \<open>
  \<^verbatim>\<open>weighted_averaging\<close>.  The list comprehension divides once per data size, so
  \<^verbatim>\<open>ZeroDivisionError\<close> needs a zero sum and at least one data size.
\<close>

definition weighted_averaging :: "real list list \<Rightarrow> real list \<Rightarrow> py_error + float_list" where
  "weighted_averaging model_weights_list data_sizes =
     (let total_size = sum_list data_sizes
      in if data_sizes \<noteq> [] \<and> total_size = 0 then Inl ZeroDivisionError
         else federated_averaging model_weights_list
                (Some (map (\<lambda>size. size / total_size) data_sizes)))"

subsection \<open>Convergence\<close>

text \<open>
  The three dictionaries \<^verbatim>\<open>check_convergence\<close> can return.  The formatted messages are their
  data: the number of rounds, or the largest improvement.
\<close>

datatype convergence =
    NotEnoughHistory
  | ModelConverged nat real
  | StillImproving real real

fun converged :: "convergence \<Rightarrow> bool" where
  "converged NotEnoughHistory = False"
| "converged (ModelConverged rounds final_accuracy) = True"
| "converged (StillImproving max_improvement current_accuracy) = False"

text \<open>
  The loop \<^verbatim>\<open>for i in range(len(h) - patience, len(h)): if i > 0: ...\<close>.  It runs after the
  test \<^verbatim>\<open>len(h) < patience\<close> has failed, so the lower end is not negative.
\<close>

definition recent_improvements :: "real list \<Rightarrow> int \<Rightarrow> real list" where
  "recent_improvements accuracy_history patience =
     map (\<lambda>i. accuracy_history ! i - accuracy_history ! (i - 1))
       (filter (\<lambda>i. 0 < i)
          [nat (int (length accuracy_history) - patience) ..< length accuracy_history])"

text \<open>\<^verbatim>\<open>max(recent_improvements) if recent_improvements else 0\<close>.\<close>

definition max_or_zero :: "real list \<Rightarrow> real" where
  "max_or_zero xs = (case xs of [] \<Rightarrow> 0 | x # rest \<Rightarrow> fold max rest x)"

text \<open>Both result dictionaries read \<^verbatim>\<open>accuracy_history[-1]\<close>, which raises on an empty history.\<close>

definition check_convergence :: "real list \<Rightarrow> real \<Rightarrow> int \<Rightarrow> py_error + convergence" where
  "check_convergence accuracy_history threshold patience =
     (if int (length accuracy_history) < patience then Inr NotEnoughHistory
      else
        (let max_improvement = max_or_zero (recent_improvements accuracy_history patience)
         in if accuracy_history = [] then Inl IndexError
            else if max_improvement < threshold
            then Inr (ModelConverged (length accuracy_history) (last accuracy_history))
            else Inr (StillImproving max_improvement (last accuracy_history))))"

text \<open>A coordinator with one registered participant, for the closed theorems.\<close>

definition sample_orchestrator :: orchestrator where
  "sample_orchestrator =
     snd (register_participant ''2024-01-01T00:00:00'' ''h1'' ''City Hospital'' new_orchestrator)"

section \<open>Properties of the ledger\<close>

subsection \<open>Mining\<close>

text \<open>Whatever the search returns meets the difficulty.\<close>

lemma pow_loop_startswith:
  "pow_loop H d bc n h = Some r \<Longrightarrow> startswith r (zeros d)"
proof -
  assume a: "pow_loop H d bc n h = Some r"
  show ?thesis
    by (rule pow_loop.raw_induct[where P = "\<lambda>H d bc n h r. startswith r (zeros d)", OF _ a])
       (auto simp: Let_def split: if_splits)
qed

lemma calculate_hash_ignores_hash [simp]:
  "calculate_hash H (b\<lparr>hash := x\<rparr>) = calculate_hash H b"
  by (simp add: calculate_hash_def body_def)

lemma mine_block_keeps_nonce:
  assumes "mine_block H now L = Some (Inr (Some b, L'))"
  shows "\<exists>h. b = (candidate_block now L)\<lparr>hash := Some h\<rparr> \<and> startswith h (zeros (difficulty L))
           \<and> L' = L\<lparr>chain := chain L @ [b], pending_transactions := []\<rparr>"
  using assms
  by (auto simp: mine_block_def Let_def proof_of_work_def split: if_splits option.splits
      dest: pow_loop_startswith)

lemma mine_block_not_reproduced:
  assumes "mine_block H now L = Some (Inr (Some b, L'))"
    and "\<not> startswith (calculate_hash H (candidate_block now L)) (zeros (difficulty L))"
  shows "nonce b = 0 \<and> hash b \<noteq> Some (calculate_hash H b) \<and> \<not> verify_block_integrity H b"
proof -
  obtain h where b: "b = (candidate_block now L)\<lparr>hash := Some h\<rparr>"
    and h: "startswith h (zeros (difficulty L))"
    using mine_block_keeps_nonce[OF assms(1)] by blast
  have e: "calculate_hash H b = calculate_hash H (candidate_block now L)" by (simp add: b)
  with h assms(2) have ne: "h \<noteq> calculate_hash H b" by auto
  have n0: "nonce b = 0" by (simp add: b candidate_block_def)
  have hb: "hash b = Some h" by (simp add: b)
  have "\<not> verify_block_integrity H b"
    using ne hb by (simp add: verify_block_integrity_def)
  with n0 hb ne show ?thesis by simp
qed

lemma pow_loop_terminates:
  "startswith (calculate_hash H (bc\<lparr>nonce := n + int k\<rparr>)) (zeros d) \<Longrightarrow>
   pow_loop H d (bc\<lparr>nonce := n\<rparr>) n (calculate_hash H (bc\<lparr>nonce := n\<rparr>)) \<noteq> None"
proof (induction k arbitrary: n)
  case 0
  then show ?case by (subst pow_loop.simps) simp
next
  case (Suc k)
  from Suc.prems have "startswith (calculate_hash H (bc\<lparr>nonce := (n + 1) + int k\<rparr>)) (zeros d)"
    by (simp add: algebra_simps)
  from Suc.IH[OF this] show ?case
    by (subst pow_loop.simps) (simp add: Let_def)
qed

text \<open>
  The search ends, and \<open>mine_block\<close> returns a block, as soon as some counter value gives a
  digest that meets the difficulty.
\<close>

lemma mine_block_returns:
  assumes "pending_transactions L \<noteq> []" and "chain L \<noteq> []"
    and "startswith (calculate_hash H ((candidate_block now L)\<lparr>nonce := int k\<rparr>)) (zeros (difficulty L))"
  shows "\<exists>b L'. mine_block H now L = Some (Inr (Some b, L'))"
proof -
  let ?c = "(candidate_block now L)\<lparr>hash := None\<rparr>"
  have c0: "?c\<lparr>nonce := 0\<rparr> = ?c" by (simp add: candidate_block_def)
  have "startswith (calculate_hash H (?c\<lparr>nonce := 0 + int k\<rparr>)) (zeros (difficulty L))"
    using assms(3) by (simp add: calculate_hash_def body_def)
  from pow_loop_terminates[OF this]
  have "pow_loop H (difficulty L) ?c 0 (calculate_hash H ?c) \<noteq> None"
    unfolding c0 .
  then have "proof_of_work H (difficulty L) (candidate_block now L) \<noteq> None"
    by (simp add: proof_of_work_def)
  with assms(1,2) show ?thesis
    by (auto simp: mine_block_def Let_def)
qed

text \<open>
  Claim C1.  A block produced by mining a non-empty pool stores a hash that starts with
  \<open>difficulty\<close> zeros, and the claim adds that hashing the stored fields again gives the stored
  hash.  The search counts on its own copy of the block and the counter it reaches is never
  written back (\<open>mine_block_keeps_nonce\<close>): the stored \<open>nonce\<close> is always \<open>0\<close>, so the second
  half fails whenever the first digest tried does not meet the difficulty
  (\<open>mine_block_not_reproduced\<close>).  The theorem runs the code on a freshly built ledger with one
  pending transaction and the SHA-256 values of its candidate block: the search stops at
  counter 3, the block is stored with \<open>nonce = 0\<close> and a hash starting with \<open>00\<close>, hashing the
  stored fields gives another digest, \<open>verify_block_integrity\<close> rejects the block, and
  \<open>verify_chain_integrity\<close> reports the chain invalid.
\<close>

theorem mined_block_hash_not_reproduced:
  "mine_block sample_digest ''2024-01-01T00:02:59'' sample_ledger
     = Some (Inr (Some (sample_block1\<lparr>nonce := 0\<rparr>),
         \<lparr>chain = [sample_genesis, sample_block1\<lparr>nonce := 0\<rparr>], pending_transactions = [],
          difficulty = 2\<rparr>))
   \<and> startswith (the (hash (sample_block1\<lparr>nonce := 0\<rparr>))) (zeros 2)
   \<and> hash (sample_block1\<lparr>nonce := 0\<rparr>)
        \<noteq> Some (calculate_hash sample_digest (sample_block1\<lparr>nonce := 0\<rparr>))
   \<and> \<not> verify_block_integrity sample_digest (sample_block1\<lparr>nonce := 0\<rparr>)
   \<and> valid (verify_chain_integrity sample_digest
        \<lparr>chain = [sample_genesis, sample_block1\<lparr>nonce := 0\<rparr>], pending_transactions = [],
          difficulty = 2\<rparr>) = False"
  by code_simp

subsection \<open>Reading a block\<close>

lemma get_block_nonneg:
  "0 \<le> bn \<Longrightarrow> get_block L bn =
     Inr (if bn < int (length (chain L)) then Some (chain L ! nat bn) else None)"
  by (simp add: get_block_def py_index_def)

lemma get_block_below:
  "bn < - int (length (chain L)) \<Longrightarrow> get_block L bn = Inl IndexError"
  by (simp add: get_block_def py_index_def)

lemma get_block_negative:
  "- int (length (chain L)) \<le> bn \<Longrightarrow> bn < 0 \<Longrightarrow>
     get_block L bn = Inr (Some (chain L ! nat (int (length (chain L)) + bn)))"
  by (simp add: get_block_def py_index_def)

text \<open>
  Claim C8.  \<open>get_block\<close> is claimed to return the block at the index or an absent result, and
  never to raise, for every integer index.  The guard only bounds the index from above.  On the
  three-block sample chain the index \<open>-4\<close> raises \<open>IndexError\<close>, the out-of-range index \<open>-1\<close>
  returns the last block, and only indices from the length upwards give the absent result.
\<close>

theorem get_block_raises_below_range:
  "get_block sample_chain (- 4) = Inl IndexError
   \<and> get_block sample_chain (- 1) = Inr (Some sample_block2)
   \<and> get_block sample_chain 3 = Inr None"
  by (simp add: get_block_def py_index_def sample_chain_def)

subsection \<open>Chain verification\<close>

text \<open>The loop of \<open>verify_chain_integrity\<close> in closed form: two independent filters.\<close>

lemma fold_verify_step:
  "fold (verify_step H ch) js r =
     r\<lparr>valid := valid r \<and> filter (\<lambda>i. \<not> verify_block_integrity H (ch ! i)) js = []
                   \<and> filter (\<lambda>i. previous_hash (ch ! i) \<noteq> hash (ch ! (i - 1))) js = [],
       invalid_blocks := invalid_blocks r @ filter (\<lambda>i. \<not> verify_block_integrity H (ch ! i)) js,
       broken_links := broken_links r
          @ filter (\<lambda>i. previous_hash (ch ! i) \<noteq> hash (ch ! (i - 1))) js\<rparr>"
proof (induction js arbitrary: r)
  case Nil
  show ?case by simp
next
  case (Cons j js)
  have step: "fold (verify_step H ch) (j # js) r = fold (verify_step H ch) js (verify_step H ch j r)"
    by simp
  have fields: "verify_step H ch j r =
      r\<lparr>valid := valid r \<and> verify_block_integrity H (ch ! j)
                    \<and> previous_hash (ch ! j) = hash (ch ! (j - 1)),
        invalid_blocks := invalid_blocks r @ (if verify_block_integrity H (ch ! j) then [] else [j]),
        broken_links := broken_links r
           @ (if previous_hash (ch ! j) = hash (ch ! (j - 1)) then [] else [j])\<rparr>"
    by (simp add: verify_step_def Let_def)
  show ?case
    unfolding step Cons.IH by (subst fields)+ auto
qed

lemma verify_chain_integrity_eq:
  "verify_chain_integrity H L =
     \<lparr>valid = (filter (\<lambda>i. \<not> verify_block_integrity H (chain L ! i)) [1..<length (chain L)] = []
               \<and> filter (\<lambda>i. previous_hash (chain L ! i) \<noteq> hash (chain L ! (i - 1)))
                    [1..<length (chain L)] = []),
      total_blocks = length (chain L),
      invalid_blocks = filter (\<lambda>i. \<not> verify_block_integrity H (chain L ! i)) [1..<length (chain L)],
      broken_links = filter (\<lambda>i. previous_hash (chain L ! i) \<noteq> hash (chain L ! (i - 1)))
                    [1..<length (chain L)]\<rparr>"
  by (simp add: verify_chain_integrity_def fold_verify_step)

lemma in_invalid_blocks:
  "j \<in> set (invalid_blocks (verify_chain_integrity H L)) \<longleftrightarrow>
     0 < j \<and> j < length (chain L) \<and> \<not> verify_block_integrity H (chain L ! j)"
  by (auto simp: verify_chain_integrity_eq)

lemma in_broken_links:
  "j \<in> set (broken_links (verify_chain_integrity H L)) \<longleftrightarrow>
     0 < j \<and> j < length (chain L) \<and> previous_hash (chain L ! j) \<noteq> hash (chain L ! (j - 1))"
  by (auto simp: verify_chain_integrity_eq)

lemma valid_iff_no_report:
  "valid (verify_chain_integrity H L) \<longleftrightarrow>
     set (invalid_blocks (verify_chain_integrity H L)) = {}
     \<and> set (broken_links (verify_chain_integrity H L)) = {}"
  by (auto simp: verify_chain_integrity_eq filter_empty_conv)

lemma verify_chain_integrity_cong:
  assumes "length (chain L') = length (chain L)"
    and "\<And>j. 0 < j \<Longrightarrow> j < length (chain L) \<Longrightarrow>
           verify_block_integrity H (chain L' ! j) = verify_block_integrity H (chain L ! j)"
    and "\<And>j. 0 < j \<Longrightarrow> j < length (chain L) \<Longrightarrow>
           (previous_hash (chain L' ! j) = hash (chain L' ! (j - 1)))
           = (previous_hash (chain L ! j) = hash (chain L ! (j - 1)))"
  shows "verify_chain_integrity H L' = verify_chain_integrity H L"
proof -
  have f1: "filter (\<lambda>i. \<not> verify_block_integrity H (chain L' ! i)) [1..<length (chain L)]
          = filter (\<lambda>i. \<not> verify_block_integrity H (chain L ! i)) [1..<length (chain L)]"
    by (rule filter_cong) (insert assms(2), auto)
  have f2: "filter (\<lambda>i. previous_hash (chain L' ! i) \<noteq> hash (chain L' ! (i - 1)))
              [1..<length (chain L)]
          = filter (\<lambda>i. previous_hash (chain L ! i) \<noteq> hash (chain L ! (i - 1)))
              [1..<length (chain L)]"
    by (rule filter_cong) (insert assms(3), auto)
  show ?thesis
    unfolding verify_chain_integrity_eq assms(1) f1 f2 ..
qed

lemma verify_detects_hash_change:
  assumes "0 < i" "i < length (chain L)"
    and "h' \<noteq> previous_hash (chain L ! i)"
  shows "\<not> valid (verify_chain_integrity H
            (L\<lparr>chain := (chain L)[i - 1 := (chain L ! (i - 1))\<lparr>hash := h'\<rparr>]\<rparr>))
       \<and> i \<in> set (broken_links (verify_chain_integrity H
            (L\<lparr>chain := (chain L)[i - 1 := (chain L ! (i - 1))\<lparr>hash := h'\<rparr>]\<rparr>)))"
proof -
  let ?L = "L\<lparr>chain := (chain L)[i - 1 := (chain L ! (i - 1))\<lparr>hash := h'\<rparr>]\<rparr>"
  have a: "chain ?L ! i = chain L ! i" using assms(1) by simp
  have b: "hash (chain ?L ! (i - 1)) = h'" using assms(1,2) by simp
  have "i \<in> set (broken_links (verify_chain_integrity H ?L))"
    unfolding in_broken_links a b using assms by simp
  then show ?thesis
    using valid_iff_no_report[of H ?L] by auto
qed

lemma verify_reports_changed_block:
  assumes "0 < k" "k < length (chain L)" "\<not> verify_block_integrity H b'"
  shows "\<not> valid (verify_chain_integrity H (L\<lparr>chain := (chain L)[k := b']\<rparr>))
       \<and> k \<in> set (invalid_blocks (verify_chain_integrity H (L\<lparr>chain := (chain L)[k := b']\<rparr>)))"
proof -
  let ?L = "L\<lparr>chain := (chain L)[k := b']\<rparr>"
  have "k \<in> set (invalid_blocks (verify_chain_integrity H ?L))"
    unfolding in_invalid_blocks using assms by simp
  then show ?thesis
    using valid_iff_no_report[of H ?L] by auto
qed

lemma verify_ignores_genesis_body:
  assumes "chain L \<noteq> []" "hash g' = hash (chain L ! 0)"
  shows "verify_chain_integrity H (L\<lparr>chain := (chain L)[0 := g']\<rparr>) = verify_chain_integrity H L"
proof (rule verify_chain_integrity_cong)
  show "length (chain (L\<lparr>chain := (chain L)[0 := g']\<rparr>)) = length (chain L)" by simp
next
  fix j assume "0 < j" "j < length (chain L)"
  then show "verify_block_integrity H (chain (L\<lparr>chain := (chain L)[0 := g']\<rparr>) ! j)
           = verify_block_integrity H (chain L ! j)" by simp
next
  fix j assume j: "0 < j" "j < length (chain L)"
  show "(previous_hash (chain (L\<lparr>chain := (chain L)[0 := g']\<rparr>) ! j)
           = hash (chain (L\<lparr>chain := (chain L)[0 := g']\<rparr>) ! (j - 1)))
      = (previous_hash (chain L ! j) = hash (chain L ! (j - 1)))"
    using j assms by (cases "j = 1") auto
qed

text \<open>
  Claim C3, as amended.  For every block after genesis, \<open>verify_chain_integrity\<close> checks
  independently that the block's own hash recomputes and that its \<open>previous_hash\<close> equals the
  stored hash of the block before it, and reports every violation: the two index lists are the
  two filters over \<open>1 ..< length chain\<close>, and \<open>valid\<close> holds exactly when both are empty.
  For every chain and index \<open>i > 0\<close>: replacing the stored hash of \<open>chain[i-1]\<close> by a value
  other than \<open>chain[i].previous_hash\<close> gives \<open>valid: false\<close> with \<open>i\<close> among the broken links;
  replacing \<open>chain[i-1]\<close>, for \<open>i > 1\<close>, by a block whose stored hash is not the digest of its
  fields gives \<open>valid: false\<close> with \<open>i - 1\<close> (not \<open>i\<close>) among the invalid blocks; and
  replacing the genesis block by one with the same stored hash changes nothing in the report.
\<close>

theorem verify_chain_integrity_reports:
  "invalid_blocks (verify_chain_integrity H L)
     = filter (\<lambda>j. \<not> verify_block_integrity H (chain L ! j)) [1..<length (chain L)]
   \<and> broken_links (verify_chain_integrity H L)
     = filter (\<lambda>j. previous_hash (chain L ! j) \<noteq> hash (chain L ! (j - 1))) [1..<length (chain L)]
   \<and> valid (verify_chain_integrity H L)
     = (invalid_blocks (verify_chain_integrity H L) = []
        \<and> broken_links (verify_chain_integrity H L) = [])
   \<and> (0 < i \<and> i < length (chain L) \<and> h' \<noteq> previous_hash (chain L ! i) \<longrightarrow>
        \<not> valid (verify_chain_integrity H
             (L\<lparr>chain := (chain L)[i - 1 := (chain L ! (i - 1))\<lparr>hash := h'\<rparr>]\<rparr>))
        \<and> i \<in> set (broken_links (verify_chain_integrity H
             (L\<lparr>chain := (chain L)[i - 1 := (chain L ! (i - 1))\<lparr>hash := h'\<rparr>]\<rparr>))))
   \<and> (1 < i \<and> i < length (chain L) \<and> \<not> verify_block_integrity H b' \<longrightarrow>
        \<not> valid (verify_chain_integrity H (L\<lparr>chain := (chain L)[i - 1 := b']\<rparr>))
        \<and> i - 1 \<in> set (invalid_blocks
             (verify_chain_integrity H (L\<lparr>chain := (chain L)[i - 1 := b']\<rparr>))))
   \<and> (chain L \<noteq> [] \<and> hash g' = hash (chain L ! 0) \<longrightarrow>
        verify_chain_integrity H (L\<lparr>chain := (chain L)[0 := g']\<rparr>) = verify_chain_integrity H L)"
proof -
  have p1: "1 < i \<and> i < length (chain L) \<and> \<not> verify_block_integrity H b' \<longrightarrow>
        \<not> valid (verify_chain_integrity H (L\<lparr>chain := (chain L)[i - 1 := b']\<rparr>))
        \<and> i - 1 \<in> set (invalid_blocks
             (verify_chain_integrity H (L\<lparr>chain := (chain L)[i - 1 := b']\<rparr>)))"
    using verify_reports_changed_block[of "i - 1" L H b'] by (cases i) auto
  have p2: "valid (verify_chain_integrity H L)
     = (invalid_blocks (verify_chain_integrity H L) = []
        \<and> broken_links (verify_chain_integrity H L) = [])"
    by (simp add: verify_chain_integrity_eq)
  have p3: "invalid_blocks (verify_chain_integrity H L)
     = filter (\<lambda>j. \<not> verify_block_integrity H (chain L ! j)) [1..<length (chain L)]"
    by (simp add: verify_chain_integrity_eq)
  have p4: "broken_links (verify_chain_integrity H L)
     = filter (\<lambda>j. previous_hash (chain L ! j) \<noteq> hash (chain L ! (j - 1))) [1..<length (chain L)]"
    by (simp add: verify_chain_integrity_eq)
  show ?thesis
    using p1 p2 p3 p4 verify_detects_hash_change[of i L h' H]
      verify_ignores_genesis_body[of L g' H]
    by blast
qed

text \<open>
  The theorem at the sample chain, \<open>i = 2\<close>: the stored hash of block 1 replaced by \<open>ff\<close>,
  block 1 replaced by a copy without its transactions, and the genesis block replaced by a copy
  with another timestamp.
\<close>

theorem verify_chain_integrity_reports_witness:
  "(0 < (2::nat) \<and> 2 < length (chain sample_chain)
      \<and> Some ''ff'' \<noteq> previous_hash (chain sample_chain ! 2))
   \<and> (1 < (2::nat) \<and> \<not> verify_block_integrity sample_digest tampered_block1)
   \<and> (chain sample_chain \<noteq> [] \<and> hash tampered_genesis = hash (chain sample_chain ! 0))
   \<and> valid (verify_chain_integrity sample_digest sample_chain)
   \<and> 2 \<in> set (broken_links (verify_chain_integrity sample_digest
        (sample_chain\<lparr>chain := (chain sample_chain)[2 - 1 :=
            (chain sample_chain ! (2 - 1))\<lparr>hash := Some ''ff''\<rparr>]\<rparr>)))
   \<and> 2 - 1 \<in> set (invalid_blocks (verify_chain_integrity sample_digest
        (sample_chain\<lparr>chain := (chain sample_chain)[2 - 1 := tampered_block1]\<rparr>)))
   \<and> verify_chain_integrity sample_digest
        (sample_chain\<lparr>chain := (chain sample_chain)[0 := tampered_genesis]\<rparr>)
      = verify_chain_integrity sample_digest sample_chain"
proof -
  have h1: "0 < (2::nat) \<and> 2 < length (chain sample_chain)
      \<and> Some ''ff'' \<noteq> previous_hash (chain sample_chain ! 2)"
    by code_simp
  have h2: "1 < (2::nat) \<and> \<not> verify_block_integrity sample_digest tampered_block1"
    by code_simp
  have h3: "chain sample_chain \<noteq> [] \<and> hash tampered_genesis = hash (chain sample_chain ! 0)"
    by code_simp
  have v: "valid (verify_chain_integrity sample_digest sample_chain)"
    by code_simp
  show ?thesis
    using h1 h2 h3 v
      verify_chain_integrity_reports[of sample_digest sample_chain 2 "Some ''ff''"
        tampered_block1 tampered_genesis]
    by simp
qed

text \<open>
  Claim C3 as stated fails.  The sample chain verifies.  With the transactions of block 1 removed
  (\<open>i = 2\<close>) the digest of block 1 changes and the report is \<open>valid: false\<close> with index 1, not
  2, in the invalid blocks and no broken link.  With the timestamp of the genesis block changed
  (\<open>i = 1\<close>) the digest of the genesis block changes and the report is still \<open>valid: true\<close>.
\<close>

theorem tampering_not_reported_at_successor:
  "valid (verify_chain_integrity sample_digest sample_chain)
   \<and> calculate_hash sample_digest tampered_block1 \<noteq> calculate_hash sample_digest sample_block1
   \<and> verify_chain_integrity sample_digest
        (sample_chain\<lparr>chain := [sample_genesis, tampered_block1, sample_block2]\<rparr>)
      = \<lparr>valid = False, total_blocks = 3, invalid_blocks = [1], broken_links = []\<rparr>
   \<and> calculate_hash sample_digest tampered_genesis \<noteq> calculate_hash sample_digest sample_genesis
   \<and> verify_chain_integrity sample_digest
        (sample_chain\<lparr>chain := [tampered_genesis, sample_block1, sample_block2]\<rparr>)
      = \<lparr>valid = True, total_blocks = 3, invalid_blocks = [], broken_links = []\<rparr>"
  by code_simp

section \<open>Properties of the round coordinator\<close>

subsection \<open>Participant records\<close>

lemma remove_participant_deletes:
  "participants (snd (remove_participant pid orch)) pid = None"
  by (auto simp: remove_participant_def)

lemma remove_participant_others:
  "q \<noteq> pid \<Longrightarrow> participants (snd (remove_participant pid orch)) q = participants orch q"
  by (simp add: remove_participant_def)

lemma apply_operation_keeps:
  assumes "participants orch pid \<noteq> None" and "op \<noteq> Remove pid"
  shows "participants (apply_operation op orch) pid \<noteq> None"
  using assms
  by (cases op)
     (auto simp: initialize_round_def register_participant_def update_participant_stats_def
        remove_participant_def Let_def split: option.splits)

lemma run_operations_keeps:
  assumes "participants orch pid \<noteq> None" and "Remove pid \<notin> set ops"
  shows "participants (run_operations ops orch) pid \<noteq> None"
  using assms unfolding run_operations_def
proof (induction ops arbitrary: orch)
  case Nil
  then show ?case by simp
next
  case (Cons op ops)
  from Cons.prems have "participants (apply_operation op orch) pid \<noteq> None"
    by (intro apply_operation_keeps) auto
  with Cons show ?case by simp
qed

lemma register_creates:
  "participants (snd (register_participant now pid inst orch)) pid \<noteq> None"
  by (auto simp: register_participant_def)

text \<open>
  Claim C9, as amended.  \<open>register_participant\<close> leaves a record stored under the id, and every
  run of operations without \<open>remove_participant\<close> of that id keeps a record under it.
  \<open>remove_participant\<close> deletes the entry of its id from \<open>participants\<close>, the only place that
  holds records, and changes nothing else: the other entries and the other attributes stay, and
  no tombstone is written.
\<close>

theorem participant_record_lifetime:
  "participants (snd (register_participant now pid inst orch)) pid \<noteq> None
   \<and> (participants orch pid \<noteq> None \<and> Remove pid \<notin> set ops \<longrightarrow>
        participants (run_operations ops orch) pid \<noteq> None)
   \<and> participants (snd (remove_participant pid orch)) pid = None
   \<and> (q \<noteq> pid \<longrightarrow> participants (snd (remove_participant pid orch)) q = participants orch q)
   \<and> current_round (snd (remove_participant pid orch)) = current_round orch
   \<and> global_model (snd (remove_participant pid orch)) = global_model orch
   \<and> training_history (snd (remove_participant pid orch)) = training_history orch"
  using register_creates[of now pid inst orch] run_operations_keeps[of orch pid ops]
    remove_participant_deletes[of pid orch] remove_participant_others[of q pid orch]
  by (simp add: remove_participant_def)

text \<open>
  The theorem at a coordinator with the participant \<open>h1\<close>, a run of three operations that does
  not remove \<open>h1\<close>, and the other id \<open>h2\<close>.
\<close>

theorem participant_record_lifetime_witness:
  "(participants sample_orchestrator ''h1'' \<noteq> None
      \<and> Remove ''h1'' \<notin> set [UpdateStats ''2024-01-02T00:00:00'' ''h1'' 0.9, Remove ''h2'',
                                InitializeRound 2])
   \<and> participants (run_operations
        [UpdateStats ''2024-01-02T00:00:00'' ''h1'' 0.9, Remove ''h2'', InitializeRound 2]
        sample_orchestrator) ''h1'' \<noteq> None
   \<and> ''h2'' \<noteq> ''h1''
   \<and> participants (snd (remove_participant ''h1'' sample_orchestrator)) ''h2''
       = participants sample_orchestrator ''h2''"
proof -
  have h: "participants sample_orchestrator ''h1'' \<noteq> None
      \<and> Remove ''h1'' \<notin> set [UpdateStats ''2024-01-02T00:00:00'' ''h1'' 0.9, Remove ''h2'',
                                InitializeRound 2]"
    by (simp add: sample_orchestrator_def register_participant_def new_orchestrator_def)
  have n: "''h2'' \<noteq> ''h1''" by simp
  show ?thesis
    using h n participant_record_lifetime[of "''2024-01-01T00:00:00''" "''h1''" "''City Hospital''"
        sample_orchestrator "[UpdateStats ''2024-01-02T00:00:00'' ''h1'' 0.9, Remove ''h2'',
                                InitializeRound 2]" "''h2''"]
    by blast
qed

text \<open>
  Claim C9 as stated fails: the record created at registration does not survive removal.
  After \<open>register_participant\<close> of \<open>h1\<close> on a new coordinator the record is stored;
  \<open>remove_participant\<close> answers success and returns the coordinator to its initial state, with
  nothing stored under \<open>h1\<close>.
\<close>

theorem removed_participant_record_is_gone:
  "participants sample_orchestrator ''h1''
     = Some \<lparr>p_institution = ''City Hospital'', p_status = ''active'',
             registered_at = ''2024-01-01T00:00:00'', rounds_participated = 0,
             model_updates_submitted = 0, last_accuracy = None, last_update = None\<rparr>
   \<and> remove_participant ''h1'' sample_orchestrator
     = ([(''status'', ''success''), (''message'', ''Participant removed'')], new_orchestrator)
   \<and> participants (run_operations [Remove ''h1''] sample_orchestrator) ''h1'' = None"
  by (simp add: sample_orchestrator_def register_participant_def new_orchestrator_def
      remove_participant_def run_operations_def)

subsection \<open>Convergence\<close>

lemma fold_max_Max: "fold max xs (x::real) = Max (set (x # xs))"
  by (simp only: Max.set_eq_fold)

lemma max_or_zero_Max: "xs \<noteq> [] \<Longrightarrow> max_or_zero xs = Max (set xs)"
  by (cases xs) (simp_all only: max_or_zero_def fold_max_Max list.case, simp)

lemma max_or_zero_less:
  "max_or_zero xs < t \<longleftrightarrow> (if xs = [] then 0 < t else \<forall>x\<in>set xs. x < t)"
proof (cases "xs = []")
  case True
  then show ?thesis by (simp add: max_or_zero_def)
next
  case False
  then show ?thesis by (simp add: max_or_zero_Max)
qed

lemma set_recent_improvements:
  "d \<in> set (recent_improvements h p) \<longleftrightarrow>
     (\<exists>i. 0 < i \<and> int (length h) - p \<le> int i \<and> i < length h \<and> d = h ! i - h ! (i - 1))"
  by (auto simp: recent_improvements_def)

text \<open>
  Claim C4, as amended.  With fewer than \<open>patience\<close> accuracies the answer is not converged,
  not enough history.  Otherwise, for a non-empty history, the improvements are
  \<open>h[i] - h[i-1]\<close> for every index \<open>i > 0\<close> among the last \<open>patience\<close> indices (so a history
  longer than \<open>patience\<close> contributes \<open>patience\<close> improvements, the first one measured from the
  entry just before the most recent \<open>patience\<close> entries), and the answer is converged exactly when
  their maximum (\<open>0\<close> when there is none) is below the threshold.  The history
  \<open>[0.80, 0.81, 0.815, 0.816]\<close> with threshold \<open>0.01\<close> and patience \<open>3\<close> is not converged: its
  largest improvement is \<open>0.81 - 0.80\<close>, which is not below \<open>0.01\<close>.  The history
  \<open>[0.5, 0.6, 0.75, 0.9]\<close> is not converged either.
\<close>

theorem check_convergence_policy:
  "(int (length h) < patience \<longrightarrow> check_convergence h threshold patience = Inr NotEnoughHistory)
   \<and> (patience \<le> int (length h) \<and> h \<noteq> [] \<longrightarrow>
        (\<exists>r. check_convergence h threshold patience = Inr r
           \<and> (converged r \<longleftrightarrow>
                (if recent_improvements h patience = [] then 0 < threshold
                 else Max (set (recent_improvements h patience)) < threshold))))
   \<and> recent_improvements h patience
        = map (\<lambda>i. h ! i - h ! (i - 1))
            (filter (\<lambda>i. 0 < i) [nat (int (length h) - patience) ..< length h])
   \<and> check_convergence [0.80, 0.81, 0.815, 0.816] 0.01 3 = Inr (StillImproving 0.01 0.816)
   \<and> check_convergence [0.5, 0.6, 0.75, 0.9] 0.01 3 = Inr (StillImproving 0.15 0.9)"
proof -
  have a: "int (length h) < patience \<longrightarrow> check_convergence h threshold patience = Inr NotEnoughHistory"
    by (simp add: check_convergence_def)
  have b: "patience \<le> int (length h) \<and> h \<noteq> [] \<longrightarrow>
        (\<exists>r. check_convergence h threshold patience = Inr r
           \<and> (converged r \<longleftrightarrow>
                (if recent_improvements h patience = [] then 0 < threshold
                 else Max (set (recent_improvements h patience)) < threshold)))"
    by (simp add: check_convergence_def Let_def max_or_zero_less)
  have c: "check_convergence [0.80, 0.81, 0.815, 0.816] 0.01 3 = Inr (StillImproving 0.01 0.816)"
    by (simp add: check_convergence_def recent_improvements_def max_or_zero_def Let_def
        upt_conv_Cons)
  have d: "check_convergence [0.5, 0.6, 0.75, 0.9] 0.01 3 = Inr (StillImproving 0.15 0.9)"
    by (simp add: check_convergence_def recent_improvements_def max_or_zero_def Let_def
        upt_conv_Cons)
  show ?thesis using a b c d by (simp add: recent_improvements_def)
qed

text \<open>The theorem at a history of two accuracies, once with patience 3 and once with patience 2.\<close>

theorem check_convergence_policy_witness:
  "int (length [0.5, 0.505 :: real]) < 3
   \<and> check_convergence [0.5, 0.505] 0.01 3 = Inr NotEnoughHistory
   \<and> (2 \<le> int (length [0.5, 0.505 :: real]) \<and> [0.5, 0.505 :: real] \<noteq> [])
   \<and> (\<exists>r. check_convergence [0.5, 0.505] 0.01 2 = Inr r \<and> converged r)"
proof -
  have h1: "int (length [0.5, 0.505 :: real]) < 3" by simp
  have h2: "2 \<le> int (length [0.5, 0.505 :: real]) \<and> [0.5, 0.505 :: real] \<noteq> []" by simp
  have r: "recent_improvements [0.5, 0.505] 2 = [0.005]"
    by (simp add: recent_improvements_def upt_conv_Cons)
  show ?thesis
    using h1 h2
      check_convergence_policy[where h = "[0.5, 0.505]" and patience = 3 and threshold = "0.01"]
      check_convergence_policy[where h = "[0.5, 0.505]" and patience = 2 and threshold = "0.01"]
    by (auto simp: r)
qed

text \<open>
  Claim C4 as stated fails at its first example: the code answers not converged, with largest
  improvement \<open>0.01\<close>, because the three improvements it looks at are \<open>0.01\<close>, \<open>0.005\<close> and
  \<open>0.001\<close>.
\<close>

theorem check_convergence_first_example:
  "check_convergence [0.80, 0.81, 0.815, 0.816] 0.01 3 = Inr (StillImproving 0.01 0.816)
   \<and> \<not> converged (StillImproving 0.01 0.816)
   \<and> recent_improvements [0.80, 0.81, 0.815, 0.816] 3 = [0.01, 0.005, 0.001]"
  by (simp add: check_convergence_def recent_improvements_def max_or_zero_def Let_def
        upt_conv_Cons)

subsection \<open>Weighted averaging\<close>

lemma sum_list_div_const: "sum_list (map (\<lambda>x. x / c) xs) = sum_list xs / (c::real)"
  by (induction xs) (simp_all add: add_divide_distrib)

lemma normalised_sum:
  assumes "sum_list ds \<noteq> (0::real)"
  shows "sum_list (map (\<lambda>size. size / sum_list ds) ds) = 1"
  using assms by (simp add: sum_list_div_const)

lemma weighted_averaging_value:
  assumes "mwl \<noteq> []" "length ds = length mwl" "rectangular mwl" "sum_list ds \<noteq> 0"
  shows "weighted_averaging mwl ds =
           Inr (Floats (map (\<lambda>j. \<Sum>i\<leftarrow>[0 ..< length mwl]. ds ! i / sum_list ds * mwl ! i ! j)
                  [0 ..< length (hd mwl)]))"
proof -
  let ?T = "sum_list ds"
  let ?ws = "map (\<lambda>size. size / ?T) ds"
  have one: "sum_list ?ws = 1" using assms(4) by (rule normalised_sum)
  have same: "map (\<lambda>w. w / sum_list ?ws) ?ws = ?ws"
    unfolding one by simp
  have fa: "federated_averaging mwl (Some ?ws) = map_sum id Floats (np_average mwl ?ws)"
    using assms(1,2,3) same one by (simp add: federated_averaging_def)
  have cols: "\<And>j. (\<Sum>i\<leftarrow>[0 ..< length mwl]. mwl ! i ! j * ?ws ! i)
                 = (\<Sum>i\<leftarrow>[0 ..< length mwl]. ds ! i / ?T * mwl ! i ! j)"
  proof -
    fix j
    have "map (\<lambda>i. mwl ! i ! j * ?ws ! i) [0 ..< length mwl]
        = map (\<lambda>i. ds ! i / ?T * mwl ! i ! j) [0 ..< length mwl]"
      using assms(2) by (intro map_cong) (auto simp: mult.commute)
    then show "(\<Sum>i\<leftarrow>[0 ..< length mwl]. mwl ! i ! j * ?ws ! i)
                 = (\<Sum>i\<leftarrow>[0 ..< length mwl]. ds ! i / ?T * mwl ! i ! j)"
      by (rule arg_cong)
  qed
  have "np_average mwl ?ws =
          Inr (map (\<lambda>j. (\<Sum>i\<leftarrow>[0 ..< length mwl]. mwl ! i ! j * ?ws ! i) / sum_list ?ws)
                 [0 ..< length (hd mwl)])"
    using assms(2) one by (simp add: np_average_def)
  also have "\<dots> = Inr (map (\<lambda>j. \<Sum>i\<leftarrow>[0 ..< length mwl]. ds ! i / ?T * mwl ! i ! j)
                  [0 ..< length (hd mwl)])"
    unfolding one cols by simp
  finally have "np_average mwl ?ws = Inr (map (\<lambda>j. \<Sum>i\<leftarrow>[0 ..< length mwl]. ds ! i / ?T * mwl ! i ! j)
                  [0 ..< length (hd mwl)])" .
  with fa assms(4) show ?thesis
    by (simp add: weighted_averaging_def Let_def)
qed

lemma weighted_averaging_zero_sum:
  "ds \<noteq> [] \<Longrightarrow> sum_list ds = 0 \<Longrightarrow> weighted_averaging mwl ds = Inl ZeroDivisionError"
  by (simp add: weighted_averaging_def)

lemma weighted_averaging_no_sizes:
  "\<exists>msg. weighted_averaging mwl [] = Inl (ValueError msg)"
  by (simp add: weighted_averaging_def federated_averaging_def)

lemma weighted_averaging_example:
  "weighted_averaging [[1.0], [3.0]] [1, 3] = Inr (Floats [2.5])"
  by (simp add: weighted_averaging_def federated_averaging_def rectangular_def np_average_def
      Let_def upt_conv_Cons)

text \<open>
  Claim C5, as amended.  For a non-empty list of weight vectors of one length and as many data
  sizes as vectors, with a non-zero sum, \<open>weighted_averaging\<close> returns the mean of the vectors
  weighted by \<open>data_sizes[i] / sum(data_sizes)\<close>; \<open>weighted_averaging([[1.0],[3.0]], [1,3])\<close>
  is \<open>[2.5]\<close>.  With a zero sum and at least one data size it raises \<open>ZeroDivisionError\<close>; with
  no data size at all no division takes place and it raises \<open>ValueError\<close>.
\<close>

theorem weighted_averaging_contract:
  "(mwl \<noteq> [] \<and> length ds = length mwl \<and> rectangular mwl \<and> sum_list ds \<noteq> 0 \<longrightarrow>
      weighted_averaging mwl ds =
        Inr (Floats (map (\<lambda>j. \<Sum>i\<leftarrow>[0 ..< length mwl]. ds ! i / sum_list ds * mwl ! i ! j)
               [0 ..< length (hd mwl)])))
   \<and> weighted_averaging [[1.0], [3.0]] [1, 3] = Inr (Floats [2.5])
   \<and> (ds \<noteq> [] \<and> sum_list ds = 0 \<longrightarrow> weighted_averaging mwl ds = Inl ZeroDivisionError)
   \<and> (\<exists>msg. weighted_averaging mwl [] = Inl (ValueError msg))"
  using weighted_averaging_value[of mwl ds] weighted_averaging_zero_sum[of ds mwl]
    weighted_averaging_no_sizes[of mwl] weighted_averaging_example
  by blast

text \<open>The theorem at two vectors of length two, with data sizes \<open>[1, 3]\<close> and \<open>[1, -1]\<close>.\<close>

theorem weighted_averaging_contract_witness:
  "([[1, 2], [3, 6 :: real]] \<noteq> [] \<and> length [1, 3 :: real] = length [[1, 2], [3, 6 :: real]]
      \<and> rectangular [[1, 2], [3, 6]] \<and> sum_list [1, 3 :: real] \<noteq> 0)
   \<and> weighted_averaging [[1, 2], [3, 6]] [1, 3] = Inr (Floats [5 / 2, 5])
   \<and> ([1, - 1 :: real] \<noteq> [] \<and> sum_list [1, - 1 :: real] = 0)
   \<and> weighted_averaging [[1, 2], [3, 6]] [1, - 1] = Inl ZeroDivisionError"
proof -
  have h1: "[[1, 2], [3, 6 :: real]] \<noteq> [] \<and> length [1, 3 :: real] = length [[1, 2], [3, 6 :: real]]
      \<and> rectangular [[1, 2], [3, 6]] \<and> sum_list [1, 3 :: real] \<noteq> 0"
    by (simp add: rectangular_def)
  have h2: "[1, - 1 :: real] \<noteq> [] \<and> sum_list [1, - 1 :: real] = 0" by simp
  have v: "map (\<lambda>j. \<Sum>i\<leftarrow>[0 ..< length [[1, 2], [3, 6 :: real]]].
                 [1, 3] ! i / sum_list [1, 3 :: real] * [[1, 2], [3, 6 :: real]] ! i ! j)
               [0 ..< length (hd [[1, 2], [3, 6 :: real]])] = [5 / 2, 5]"
    by (simp add: upt_conv_Cons)
  show ?thesis
    using h1 h2 v weighted_averaging_contract[of "[[1, 2], [3, 6]]" "[1, 3]"]
      weighted_averaging_contract[of "[[1, 2], [3, 6]]" "[1, - 1]"]
    by simp
qed

text \<open>
  Claim C5 as stated fails on an empty list of data sizes: its sum is zero and the exception is
  \<open>ValueError\<close>, not a division error.  A list of data sizes shorter than the list of vectors
  raises \<open>ValueError\<close> as well, although its sum is not zero.
\<close>

theorem weighted_averaging_empty_sizes:
  "sum_list ([] :: real list) = 0
   \<and> weighted_averaging [] [] = Inl (ValueError ''No model weights provided'')
   \<and> weighted_averaging [[1.0], [3.0]] []
       = Inl (ValueError ''numpy: as many weights as rows expected'')
   \<and> weighted_averaging [[1.0], [3.0]] [1]
       = Inl (ValueError ''numpy: as many weights as rows expected'')"
  by (simp add: weighted_averaging_def federated_averaging_def rectangular_def)

section \<open>Properties of the aggregation engine\<close>

subsection \<open>Decryption of a batch\<close>

lemma decrypt_parameters_engine [simp]: "snd (decrypt_parameters lib c e) = e"
  by (simp add: decrypt_parameters_def split: sum.splits)

lemma decrypt_parameters_pair: "decrypt_parameters lib c e = (fst (decrypt_parameters lib c e), e)"
  by (metis decrypt_parameters_engine prod.collapse)

lemma decrypt_all_engine [simp]: "snd (decrypt_all lib cs e) = e"
proof (induction cs arbitrary: e)
  case Nil
  show ?case by simp
next
  case (Cons c cs)
  obtain r where r: "decrypt_parameters lib c e = (r, e)"
    using decrypt_parameters_pair by blast
  obtain rs where rs: "decrypt_all lib cs e = (rs, e)"
    using Cons.IH[of e] by (metis prod.collapse)
  show ?case by (simp add: r rs split: sum.splits)
qed

lemma decrypt_all_pair: "decrypt_all lib cs e = (fst (decrypt_all lib cs e), e)"
  by (metis decrypt_all_engine prod.collapse)

lemma decrypt_all_first_failure:
  assumes "i < length cs"
    and "\<forall>j<i. \<not> isl (fst (decrypt_parameters lib (cs ! j) e))"
    and "fst (decrypt_parameters lib (cs ! i) e) = Inl err"
  shows "decrypt_all lib cs e = (Inl err, e)"
  using assms
proof (induction cs arbitrary: i)
  case Nil
  then show ?case by simp
next
  case (Cons c cs)
  show ?case
  proof (cases i)
    case 0
    with Cons.prems(3) have "decrypt_parameters lib c e = (Inl err, e)"
      using decrypt_parameters_pair[of lib c e] by simp
    then show ?thesis by simp
  next
    case (Suc k)
    from Cons.prems(2) Suc have "\<not> isl (fst (decrypt_parameters lib c e))" by auto
    then obtain d where d: "decrypt_parameters lib c e = (Inr d, e)"
      using decrypt_parameters_pair[of lib c e] by (cases "fst (decrypt_parameters lib c e)") auto
    have "decrypt_all lib cs e = (Inl err, e)"
    proof (rule Cons.IH)
      show "k < length cs" using Cons.prems(1) Suc by simp
      show "\<forall>j<k. \<not> isl (fst (decrypt_parameters lib (cs ! j) e))"
        using Cons.prems(2) Suc by auto
      show "fst (decrypt_parameters lib (cs ! k) e) = Inl err"
        using Cons.prems(3) Suc by simp
    qed
    then show ?thesis by (simp add: d)
  qed
qed

lemma decrypt_all_some_failure:
  assumes "\<exists>c\<in>set cs. isl (fst (decrypt_parameters lib c e))"
  shows "isl (fst (decrypt_all lib cs e))"
  using assms
proof (induction cs)
  case Nil
  then show ?case by simp
next
  case (Cons c cs)
  obtain r where r: "decrypt_parameters lib c e = (r, e)"
    using decrypt_parameters_pair by blast
  obtain rs where rs: "decrypt_all lib cs e = (rs, e)"
    using decrypt_all_pair by blast
  show ?case
  proof (cases r)
    case (Inl a)
    then show ?thesis by (simp add: r)
  next
    case (Inr d)
    with Cons.prems r have "\<exists>c\<in>set cs. isl (fst (decrypt_parameters lib c e))" by auto
    from Cons.IH[OF this] have "isl rs" by (simp add: rs)
    then show ?thesis by (cases rs) (simp_all add: r rs Inr)
  qed
qed


text \<open>
  Claim C7.  \<open>secure_aggregate\<close> fails the whole call: on an empty payload sequence it raises
  the \<open>ValueError\<close> "No parameters to aggregate"; when a payload fails to decrypt, the error of
  the first such payload is the result of the call and no aggregate is returned.  The engine is
  the same after the call as before, whatever the outcome.
\<close>

theorem secure_aggregate_all_or_nothing:
  "secure_aggregate lib parse [] e = (Inl (ValueError ''No parameters to aggregate''), e)
   \<and> (i < length cs \<and> (\<forall>j<i. \<not> isl (fst (decrypt_parameters lib (cs ! j) e)))
        \<and> fst (decrypt_parameters lib (cs ! i) e) = Inl err \<longrightarrow>
          secure_aggregate lib parse cs e = (Inl err, e))
   \<and> ((\<exists>c\<in>set cs. isl (fst (decrypt_parameters lib c e))) \<longrightarrow>
          isl (fst (secure_aggregate lib parse cs e)))
   \<and> snd (secure_aggregate lib parse cs e) = e"
proof -
  have a: "secure_aggregate lib parse [] e = (Inl (ValueError ''No parameters to aggregate''), e)"
    by (simp add: secure_aggregate_def)
  have b: "i < length cs \<and> (\<forall>j<i. \<not> isl (fst (decrypt_parameters lib (cs ! j) e)))
        \<and> fst (decrypt_parameters lib (cs ! i) e) = Inl err \<longrightarrow>
          secure_aggregate lib parse cs e = (Inl err, e)"
  proof
    assume h: "i < length cs \<and> (\<forall>j<i. \<not> isl (fst (decrypt_parameters lib (cs ! j) e)))
        \<and> fst (decrypt_parameters lib (cs ! i) e) = Inl err"
    then have "decrypt_all lib cs e = (Inl err, e)"
      using decrypt_all_first_failure[of i cs lib e err] by blast
    moreover from h have "cs \<noteq> []" by auto
    ultimately show "secure_aggregate lib parse cs e = (Inl err, e)"
      by (simp add: secure_aggregate_def)
  qed
  have c: "(\<exists>c\<in>set cs. isl (fst (decrypt_parameters lib c e))) \<longrightarrow>
          isl (fst (secure_aggregate lib parse cs e))"
  proof
    assume h: "\<exists>c\<in>set cs. isl (fst (decrypt_parameters lib c e))"
    then have "isl (fst (decrypt_all lib cs e))" by (rule decrypt_all_some_failure)
    then obtain x where "decrypt_all lib cs e = (Inl x, e)"
      using decrypt_all_pair[of lib cs e] by (cases "fst (decrypt_all lib cs e)") auto
    then show "isl (fst (secure_aggregate lib parse cs e))"
      by (simp add: secure_aggregate_def)
  qed
  have d: "snd (secure_aggregate lib parse cs e) = e"
  proof -
    obtain rs where rs: "decrypt_all lib cs e = (rs, e)"
      using decrypt_all_pair by blast
    show ?thesis by (cases rs) (simp_all add: secure_aggregate_def rs)
  qed
  from a b c d show ?thesis by blast
qed

text \<open>
  The theorem at three payloads of the sample libraries, the second of which is not a
  ciphertext: the call ends with the decoding error of the second payload.
\<close>

theorem secure_aggregate_all_or_nothing_witness:
  "((1::nat) < length [toy_encrypt (CHR ''a'') [(''w'', Scalar (Num 1))], ''garbled'',
                       toy_encrypt (CHR ''b'') [(''w'', Scalar (Num 3))]]
      \<and> \<not> isl (fst (decrypt_parameters toy_libs
            ([toy_encrypt (CHR ''a'') [(''w'', Scalar (Num 1))], ''garbled'',
              toy_encrypt (CHR ''b'') [(''w'', Scalar (Num 3))]] ! 0) toy_engine))
      \<and> fst (decrypt_parameters toy_libs
            ([toy_encrypt (CHR ''a'') [(''w'', Scalar (Num 1))], ''garbled'',
              toy_encrypt (CHR ''b'') [(''w'', Scalar (Num 3))]] ! 1) toy_engine)
          = Inl (LibraryError ''binascii.Error''))
   \<and> secure_aggregate toy_libs (\<lambda>s. None)
        [toy_encrypt (CHR ''a'') [(''w'', Scalar (Num 1))], ''garbled'',
         toy_encrypt (CHR ''b'') [(''w'', Scalar (Num 3))]] toy_engine
      = (Inl (LibraryError ''binascii.Error''), toy_engine)
   \<and> ''garbled'' \<in> set [toy_encrypt (CHR ''a'') [(''w'', Scalar (Num 1))], ''garbled'',
                          toy_encrypt (CHR ''b'') [(''w'', Scalar (Num 3))]]
   \<and> isl (fst (decrypt_parameters toy_libs ''garbled'' toy_engine))
   \<and> isl (fst (secure_aggregate toy_libs (\<lambda>s. None)
        [toy_encrypt (CHR ''a'') [(''w'', Scalar (Num 1))], ''garbled'',
         toy_encrypt (CHR ''b'') [(''w'', Scalar (Num 3))]] toy_engine))"
proof -
  let ?cs = "[toy_encrypt (CHR ''a'') [(''w'', Scalar (Num 1))], ''garbled'',
              toy_encrypt (CHR ''b'') [(''w'', Scalar (Num 3))]]"
  have h1: "(1::nat) < length ?cs" by simp
  have h2: "\<not> isl (fst (decrypt_parameters toy_libs (?cs ! 0) toy_engine))"
    by (simp add: toy_encrypt_def encrypt_parameters_def decrypt_parameters_def toy_libs_def
        toy_engine_def toy_json_table_def jsonify_def)
  have h3: "fst (decrypt_parameters toy_libs (?cs ! 1) toy_engine)
          = Inl (LibraryError ''binascii.Error'')"
    by (simp add: toy_encrypt_def encrypt_parameters_def decrypt_parameters_def toy_libs_def
        toy_engine_def toy_json_table_def jsonify_def)
  from h2 have h2': "\<forall>j<1. \<not> isl (fst (decrypt_parameters toy_libs (?cs ! j) toy_engine))"
    by simp
  have r: "secure_aggregate toy_libs (\<lambda>s. None) ?cs toy_engine
             = (Inl (LibraryError ''binascii.Error''), toy_engine)"
    using h1 h2' h3 secure_aggregate_all_or_nothing[of toy_libs "\<lambda>s. None" toy_engine 1 ?cs
        "LibraryError ''binascii.Error''"]
    by blast
  have g1: "''garbled'' \<in> set ?cs" by simp
  have g2: "isl (fst (decrypt_parameters toy_libs ''garbled'' toy_engine))"
    by (simp add: decrypt_parameters_def toy_libs_def)
  from g1 g2 have g: "\<exists>c\<in>set ?cs. isl (fst (decrypt_parameters toy_libs c toy_engine))"
    by (rule bexI[rotated])
  have f: "isl (fst (secure_aggregate toy_libs (\<lambda>s. None) ?cs toy_engine))"
    by (rule secure_aggregate_all_or_nothing[of toy_libs "\<lambda>s. None" toy_engine 1 ?cs
          "LibraryError ''binascii.Error''", THEN conjunct2, THEN conjunct2, THEN conjunct1,
          rule_format, OF g])
  show ?thesis
    by (intro conjI) (fact h1 h2 h3 r g1 g2 f)+
qed

subsection \<open>Round trip\<close>

lemma json_value_no_tuple: "no_tuple v \<Longrightarrow> json_value v = v"
  by (cases v) simp_all

lemma jsonify_tuple_free: "tuple_free p \<Longrightarrow> jsonify p = p"
  by (induction p) (auto simp: tuple_free_def jsonify_def json_value_no_tuple)

lemma json_value_tuple: "\<not> no_tuple v \<Longrightarrow> json_value v \<noteq> v"
  by (cases v) simp_all

lemma jsonify_tuple: "\<not> tuple_free p \<Longrightarrow> jsonify p \<noteq> p"
  by (induction p) (auto simp: tuple_free_def jsonify_def json_value_tuple)

lemma decrypt_encrypt_json:
  assumes "\<And>x. b64decode lib (b64encode lib x) = Inr x"
    and "\<And>iv m. fernet_decrypt lib (master_key e) (fernet_encrypt lib (master_key e) iv m) = Inr m"
  shows "\<exists>c. encrypt_parameters lib rnd p e = (Inr c, e)
           \<and> decrypt_parameters lib c e = (json_loads lib (json_dumps lib (jsonify p)), e)"
  using assms by (simp add: encrypt_parameters_def decrypt_parameters_def Let_def)

text \<open>
  Claim C6, as amended.  The engine applies the libraries in the order JSON, Fernet, base64 and
  undoes them in the order base64, Fernet, JSON, with the same key.  For all libraries that meet
  their contracts (base64 decoding undoes encoding, Fernet decryption under the engine's key
  undoes encryption under that key for every initialisation vector, and JSON parsing gives back
  the JSON value that was serialised), on every run and whatever randomness the cipher drew,
  \<open>encrypt_parameters\<close> returns a ciphertext and \<open>decrypt_parameters\<close> turns it into the JSON
  value of the mapping: the mapping with every tuple replaced by the list of its elements.
  That is the mapping itself when it holds no tuple, and another mapping when it holds one.
\<close>

theorem decrypt_encrypt_roundtrip:
  assumes "\<And>x. b64decode lib (b64encode lib x) = Inr x"
    and "\<And>iv m. fernet_decrypt lib (master_key e) (fernet_encrypt lib (master_key e) iv m) = Inr m"
    and "json_loads lib (json_dumps lib (jsonify p)) = Inr (jsonify p)"
  shows "\<exists>c. encrypt_parameters lib rnd p e = (Inr c, e)
           \<and> decrypt_parameters lib c e = (Inr (jsonify p), e)
           \<and> (tuple_free p \<longrightarrow> decrypt_parameters lib c e = (Inr p, e))
           \<and> (\<not> tuple_free p \<longrightarrow> fst (decrypt_parameters lib c e) \<noteq> Inr p)"
proof -
  from decrypt_encrypt_json[of lib e rnd p, OF assms(1,2)]
  obtain c where c: "encrypt_parameters lib rnd p e = (Inr c, e)"
    and d: "decrypt_parameters lib c e = (json_loads lib (json_dumps lib (jsonify p)), e)"
    by blast
  from d assms(3) have d': "decrypt_parameters lib c e = (Inr (jsonify p), e)" by simp
  have t: "tuple_free p \<longrightarrow> decrypt_parameters lib c e = (Inr p, e)"
    using d' by (simp add: jsonify_tuple_free)
  have n: "\<not> tuple_free p \<longrightarrow> fst (decrypt_parameters lib c e) \<noteq> Inr p"
    using d' by (simp add: jsonify_tuple)
  show ?thesis
    by (rule exI[of _ c]) (intro conjI c d' t n)
qed

text \<open>
  The theorem at the sample libraries, which meet the three contracts: two initialisation
  vectors give two different ciphertexts of one mapping without tuples, and both decrypt to
  that mapping.
\<close>

theorem decrypt_encrypt_roundtrip_witness:
  "(\<forall>x. b64decode toy_libs (b64encode toy_libs x) = Inr x)
   \<and> (\<forall>iv m. fernet_decrypt toy_libs (master_key toy_engine)
                (fernet_encrypt toy_libs (master_key toy_engine) iv m) = Inr m)
   \<and> json_loads toy_libs (json_dumps toy_libs
         (jsonify [(''v'', Seq [Num 1, Num 2]), (''note'', Scalar (Str ''svm''))]))
       = Inr (jsonify [(''v'', Seq [Num 1, Num 2]), (''note'', Scalar (Str ''svm''))])
   \<and> tuple_free [(''v'', Seq [Num 1, Num 2]), (''note'', Scalar (Str ''svm''))]
   \<and> toy_encrypt (CHR ''a'') [(''v'', Seq [Num 1, Num 2]), (''note'', Scalar (Str ''svm''))]
       \<noteq> toy_encrypt (CHR ''b'') [(''v'', Seq [Num 1, Num 2]), (''note'', Scalar (Str ''svm''))]
   \<and> (\<exists>c. encrypt_parameters toy_libs (CHR ''a'')
               [(''v'', Seq [Num 1, Num 2]), (''note'', Scalar (Str ''svm''))] toy_engine
             = (Inr c, toy_engine)
          \<and> decrypt_parameters toy_libs c toy_engine
             = (Inr [(''v'', Seq [Num 1, Num 2]), (''note'', Scalar (Str ''svm''))], toy_engine))
   \<and> (\<exists>c. encrypt_parameters toy_libs (CHR ''b'')
               [(''v'', Seq [Num 1, Num 2]), (''note'', Scalar (Str ''svm''))] toy_engine
             = (Inr c, toy_engine)
          \<and> decrypt_parameters toy_libs c toy_engine
             = (Inr [(''v'', Seq [Num 1, Num 2]), (''note'', Scalar (Str ''svm''))], toy_engine))"
proof -
  let ?p = "[(''v'', Seq [Num 1, Num 2]), (''note'', Scalar (Str ''svm''))]"
  have b: "\<And>x. b64decode toy_libs (b64encode toy_libs x) = Inr x"
    by (simp add: toy_libs_def)
  have f: "\<And>iv m. fernet_decrypt toy_libs (master_key toy_engine)
                (fernet_encrypt toy_libs (master_key toy_engine) iv m) = Inr m"
    by (simp add: toy_libs_def toy_engine_def)
  have j: "json_loads toy_libs (json_dumps toy_libs (jsonify ?p)) = Inr (jsonify ?p)"
    by (simp add: toy_libs_def toy_json_table_def jsonify_def)
  have t: "tuple_free ?p" by (simp add: tuple_free_def)
  have d: "toy_encrypt (CHR ''a'') ?p \<noteq> toy_encrypt (CHR ''b'') ?p"
    by (simp add: toy_encrypt_def encrypt_parameters_def toy_libs_def toy_engine_def)
  from decrypt_encrypt_roundtrip[of toy_libs toy_engine ?p "CHR ''a''", OF b f j]
  obtain ca where ea: "encrypt_parameters toy_libs (CHR ''a'') ?p toy_engine = (Inr ca, toy_engine)"
    and ia: "tuple_free ?p \<longrightarrow> decrypt_parameters toy_libs ca toy_engine = (Inr ?p, toy_engine)"
    by (elim exE conjE)
  from ia t have da: "decrypt_parameters toy_libs ca toy_engine = (Inr ?p, toy_engine)"
    by (rule mp)
  have ra: "\<exists>c. encrypt_parameters toy_libs (CHR ''a'') ?p toy_engine = (Inr c, toy_engine)
          \<and> decrypt_parameters toy_libs c toy_engine = (Inr ?p, toy_engine)"
    by (rule exI[of _ ca]) (intro conjI ea da)
  from decrypt_encrypt_roundtrip[of toy_libs toy_engine ?p "CHR ''b''", OF b f j]
  obtain cb where eb: "encrypt_parameters toy_libs (CHR ''b'') ?p toy_engine = (Inr cb, toy_engine)"
    and ib: "tuple_free ?p \<longrightarrow> decrypt_parameters toy_libs cb toy_engine = (Inr ?p, toy_engine)"
    by (elim exE conjE)
  from ib t have db: "decrypt_parameters toy_libs cb toy_engine = (Inr ?p, toy_engine)"
    by (rule mp)
  have rb: "\<exists>c. encrypt_parameters toy_libs (CHR ''b'') ?p toy_engine = (Inr c, toy_engine)
          \<and> decrypt_parameters toy_libs c toy_engine = (Inr ?p, toy_engine)"
    by (rule exI[of _ cb]) (intro conjI eb db)
  have b': "\<forall>x. b64decode toy_libs (b64encode toy_libs x) = Inr x" using b by (rule allI)
  have f': "\<forall>iv m. fernet_decrypt toy_libs (master_key toy_engine)
                (fernet_encrypt toy_libs (master_key toy_engine) iv m) = Inr m"
    using f by (intro allI)
  show ?thesis
    by (intro conjI) (fact b' f' j t d ra rb)+
qed

text \<open>
  Claim C6 as stated fails for a sequence that is a tuple: the mapping \<open>{"v": (1.0, 2.0)}\<close>
  comes back as \<open>{"v": [1.0, 2.0]}\<close>, which Python does not hold equal to it.
\<close>

theorem tuple_comes_back_as_list:
  "decrypt_parameters toy_libs (toy_encrypt (CHR ''a'') [(''v'', Tup [Num 1, Num 2])]) toy_engine
     = (Inr [(''v'', Seq [Num 1, Num 2])], toy_engine)
   \<and> [(''v'', Seq [Num 1, Num 2])] \<noteq> [(''v'', Tup [Num 1, Num 2])]"
  by (simp add: toy_encrypt_def encrypt_parameters_def decrypt_parameters_def toy_libs_def
      toy_engine_def toy_json_table_def jsonify_def)


subsection \<open>Averaging\<close>

lemma present_Nil [simp]: "present n [] = []"
  by (simp add: present_def)







lemma those_map_Some: "those (map Some xs) = Some xs"
  by (induction xs) simp_all

lemma nums_of_Num [simp]: "nums_of (map Num r) = Some r"
  by (simp add: nums_of_def comp_def those_map_Some)



lemma update_fresh: "k \<notin> fst ` set al \<Longrightarrow> AList.update k v al = al @ [(k, v)]"
  by (induction al) auto



lemma dbl_limit_large: "int64_limit < dbl_limit"
proof -
  have "(2::real) ^ 1024 = 2 ^ 970 * 2 ^ 54" by (simp add: power_add [symmetric])
  then have "dbl_limit = 2 ^ 970 * (2 ^ 54 - 1)" by (simp add: dbl_limit_def algebra_simps)
  moreover have "(2::real) ^ 63 \<le> 2 ^ 970" by (rule power_increasing) simp_all
  moreover have "(2::real) ^ 970 * 1 \<le> 2 ^ 970 * (2 ^ 54 - 1)"
    by (rule mult_left_mono) simp_all
  moreover have "(2::real) ^ 63 < 2 ^ 970" by (rule power_strict_increasing) simp_all
  ultimately show ?thesis by (simp add: int64_limit_def)
qed

lemma small_in_range: "\<bar>x\<bar> \<le> 2 ^ 63 \<Longrightarrow> \<bar>x\<bar> < dbl_limit"
  using dbl_limit_large by (simp add: int64_limit_def)








subsection \<open>Differential-privacy noise\<close>

lemma dbl_limit_pos: "0 < dbl_limit"
  using dbl_limit_large by (simp add: int64_limit_def)

lemma py_truediv_in_range:
  assumes "num_val epsilon \<noteq> 0" "\<bar>num_val epsilon\<bar> < dbl_limit" "\<bar>num_val sensitivity\<bar> < dbl_limit"
  shows "py_truediv sensitivity epsilon = Inr (num_val sensitivity / num_val epsilon)"
proof (cases sensitivity; cases epsilon)
  fix a b assume s: "sensitivity = PyInt a" and e: "epsilon = PyInt b"
  with assms(1) have b: "b \<noteq> 0" by simp
  then have "1 \<le> \<bar>real_of_int b\<bar>" by (cases "0 \<le> b") simp_all
  then have "\<bar>real_of_int a\<bar> / \<bar>real_of_int b\<bar> \<le> \<bar>real_of_int a\<bar> / 1"
    by (intro divide_left_mono) simp_all
  with assms(3) s have "\<bar>real_of_int a / real_of_int b\<bar> < dbl_limit" by simp
  with b show ?thesis by (simp add: s e)
qed (use assms in simp_all)

lemma py_truediv_by_zero:
  assumes "num_val epsilon = 0" "\<bar>num_val sensitivity\<bar> < dbl_limit"
  shows "py_truediv sensitivity epsilon = Inl ZeroDivisionError"
  using assms dbl_limit_pos by (cases sensitivity; cases epsilon) simp_all

lemma noisy_list_length:
  "noisy_list laplace scale vs g = Inr (ws, g') \<Longrightarrow> length ws = length vs"
proof (induction vs arbitrary: ws g)
  case Nil
  then show ?case by simp
next
  case (Cons v vs)
  then show ?case
    by (auto split: sum.splits atom.splits prod.splits if_splits)
qed

lemma noisy_list_total:
  assumes "\<And>g. \<exists>x g'. laplace scale g = Inr (x, g')"
    and "list_all is_num vs" and "list_all in_range vs"
  shows "\<exists>ws g'. noisy_list laplace scale vs g = Inr (ws, g')"
  using assms(2,3)
proof (induction vs arbitrary: g)
  case Nil
  show ?case by simp
next
  case (Cons v vs)
  obtain x g1 where s: "laplace scale g = Inr (x, g1)" using assms(1) by blast
  from Cons.prems obtain y where v: "v = Num y" and y: "\<bar>y\<bar> < dbl_limit" by (cases v) auto
  from Cons.prems obtain ws g2 where "noisy_list laplace scale vs g1 = Inr (ws, g2)"
    using Cons.IH[of g1] by auto
  then show ?case by (simp add: s v y)
qed

lemma noisy_list_type_error:
  assumes "\<And>g. \<exists>x g'. laplace scale g = Inr (x, g')"
    and "\<not> list_all is_num vs" and "list_all in_range vs"
  shows "noisy_list laplace scale vs g = Inl TypeError"
  using assms(2,3)
proof (induction vs arbitrary: g)
  case Nil
  then show ?case by simp
next
  case (Cons v vs)
  obtain x g1 where s: "laplace scale g = Inr (x, g1)" using assms(1) by blast
  show ?case
  proof (cases v)
    case (Num y)
    with Cons.prems have y: "\<bar>y\<bar> < dbl_limit" and r: "\<not> list_all is_num vs" "list_all in_range vs"
      by simp_all
    from Cons.IH[OF r, of g1] show ?thesis by (simp add: s Num y)
  next
    case (Str t)
    then show ?thesis by (simp add: s)
  next
    case Null
    then show ?thesis by (simp add: s)
  qed
qed

lemma noisy_list_overflow:
  assumes "\<And>g. \<exists>x g'. laplace scale g = Inr (x, g')"
    and "list_all is_num vs" and "\<not> list_all in_range vs"
  shows "noisy_list laplace scale vs g = Inl OverflowError"
  using assms(2,3)
proof (induction vs arbitrary: g)
  case Nil
  then show ?case by simp
next
  case (Cons v vs)
  obtain x g1 where s: "laplace scale g = Inr (x, g1)" using assms(1) by blast
  from Cons.prems obtain y where v: "v = Num y" by (cases v) auto
  show ?case
  proof (cases "\<bar>y\<bar> < dbl_limit")
    case True
    with Cons.prems v have r: "list_all is_num vs" "\<not> list_all in_range vs" by simp_all
    from Cons.IH[OF r, of g1] show ?thesis by (simp add: s v True)
  next
    case False
    then show ?thesis by (simp add: s v)
  qed
qed

lemma noise_loop_keys:
  "noise_loop laplace scale ps acc g = Inr (r, g') \<Longrightarrow>
     fst ` set r = fst ` set acc \<union> fst ` set ps"
proof (induction laplace scale ps acc g rule: noise_loop.induct)
  case (1 laplace scale noisy_params g)
  then show ?case by simp
next
  case (2 laplace scale key x rest noisy_params g)
  then show ?case
    by (auto simp: dom_update split: sum.splits prod.splits if_splits)
next
  case (3 laplace scale key vs rest noisy_params g)
  then show ?case
    by (auto simp: dom_update split: sum.splits prod.splits)
next
  case (4 laplace scale key s rest noisy_params g)
  then show ?case by (auto simp: dom_update)
next
  case (5 laplace scale key rest noisy_params g)
  then show ?case by (auto simp: dom_update)
next
  case (6 laplace scale key vs rest noisy_params g)
  then show ?case by (auto simp: dom_update)
qed

lemma noise_loop_absent:
  "noise_loop laplace scale ps acc g = Inr (r, g') \<Longrightarrow> k \<notin> fst ` set ps \<Longrightarrow>
     map_of r k = map_of acc k"
proof (induction laplace scale ps acc g rule: noise_loop.induct)
  case (1 laplace scale noisy_params g)
  then show ?case by simp
next
  case (2 laplace scale key x rest noisy_params g)
  then show ?case
    by (auto simp: update_conv' split: sum.splits prod.splits if_splits)
next
  case (3 laplace scale key vs rest noisy_params g)
  then show ?case
    by (auto simp: update_conv' split: sum.splits prod.splits)
next
  case (4 laplace scale key s rest noisy_params g)
  then show ?case by (auto simp: update_conv')
next
  case (5 laplace scale key rest noisy_params g)
  then show ?case by (auto simp: update_conv')
next
  case (6 laplace scale key vs rest noisy_params g)
  then show ?case by (auto simp: update_conv')
qed

lemma noise_loop_present:
  "noise_loop laplace scale ps acc g = Inr (r, g') \<Longrightarrow> distinct (map fst ps) \<Longrightarrow>
   map_of ps k = Some v \<Longrightarrow>
     (\<exists>v'. map_of r k = Some v' \<and>
        (case v of
           Scalar (Num x) \<Rightarrow> (\<exists>y. v' = Scalar (Num y))
         | Scalar a \<Rightarrow> v' = v
         | Seq vs \<Rightarrow> (\<exists>ws. v' = Seq ws \<and> length ws = length vs)
         | Tup vs \<Rightarrow> v' = v))"
proof (induction laplace scale ps acc g rule: noise_loop.induct)
  case (1 laplace scale noisy_params g)
  then show ?case by simp
next
  case (2 laplace scale key x rest noisy_params g)
  from "2.prems"(1) obtain noise g1 where s: "laplace scale g = Inr (noise, g1)"
    and rng: "\<bar>x\<bar> < dbl_limit"
    and l: "noise_loop laplace scale rest
              (AList.update key (Scalar (Num (x + noise))) noisy_params) g1 = Inr (r, g')"
    by (auto split: sum.splits prod.splits if_splits)
  show ?case
  proof (cases "k = key")
    case True
    with "2.prems" have v: "v = Scalar (Num x)" and nk: "k \<notin> fst ` set rest" by auto
    from noise_loop_absent[OF l nk] show ?thesis by (simp add: v True update_conv')
  next
    case False
    with "2.prems" have "map_of rest k = Some v" "distinct (map fst rest)" by auto
    with "2.IH"[OF s refl rng l] show ?thesis by simp
  qed
next
  case (3 laplace scale key vs rest noisy_params g)
  from "3.prems"(1) obtain ws g1 where s: "noisy_list laplace scale vs g = Inr (ws, g1)"
    and l: "noise_loop laplace scale rest (AList.update key (Seq ws) noisy_params) g1 = Inr (r, g')"
    by (auto split: sum.splits prod.splits)
  show ?case
  proof (cases "k = key")
    case True
    with "3.prems" have v: "v = Seq vs" and nk: "k \<notin> fst ` set rest" by auto
    from noise_loop_absent[OF l nk] noisy_list_length[OF s]
    show ?thesis by (simp add: v True update_conv')
  next
    case False
    with "3.prems" have "map_of rest k = Some v" "distinct (map fst rest)" by auto
    with "3.IH"[OF s refl l] show ?thesis by simp
  qed
next
  case (4 laplace scale key s rest noisy_params g)
  show ?case
  proof (cases "k = key")
    case True
    with "4.prems" have v: "v = Scalar (Str s)" and nk: "k \<notin> fst ` set rest" by auto
    from "4.prems"(1) have
      "noise_loop laplace scale rest (AList.update key (Scalar (Str s)) noisy_params) g = Inr (r, g')"
      by simp
    from noise_loop_absent[OF this nk] show ?thesis by (simp add: v True update_conv')
  next
    case False
    with "4.prems" have "map_of rest k = Some v" "distinct (map fst rest)" by auto
    with "4.IH" "4.prems"(1) show ?thesis by simp
  qed
next
  case (5 laplace scale key rest noisy_params g)
  show ?case
  proof (cases "k = key")
    case True
    with "5.prems" have v: "v = Scalar Null" and nk: "k \<notin> fst ` set rest" by auto
    from "5.prems"(1) have
      "noise_loop laplace scale rest (AList.update key (Scalar Null) noisy_params) g = Inr (r, g')"
      by simp
    from noise_loop_absent[OF this nk] show ?thesis by (simp add: v True update_conv')
  next
    case False
    with "5.prems" have "map_of rest k = Some v" "distinct (map fst rest)" by auto
    with "5.IH" "5.prems"(1) show ?thesis by simp
  qed
next
  case (6 laplace scale key vs rest noisy_params g)
  show ?case
  proof (cases "k = key")
    case True
    with "6.prems" have v: "v = Tup vs" and nk: "k \<notin> fst ` set rest" by auto
    from "6.prems"(1) have
      "noise_loop laplace scale rest (AList.update key (Tup vs) noisy_params) g = Inr (r, g')"
      by simp
    from noise_loop_absent[OF this nk] show ?thesis by (simp add: v True update_conv')
  next
    case False
    with "6.prems" have "map_of rest k = Some v" "distinct (map fst rest)" by auto
    with "6.IH" "6.prems"(1) show ?thesis by simp
  qed
qed

lemma noise_loop_order:
  "noise_loop laplace scale ps acc g = Inr (r, g') \<Longrightarrow> distinct (map fst ps) \<Longrightarrow>
   fst ` set ps \<inter> fst ` set acc = {} \<Longrightarrow> map fst r = map fst acc @ map fst ps"
proof (induction laplace scale ps acc g rule: noise_loop.induct)
  case (1 laplace scale noisy_params g)
  then show ?case by simp
next
  case (2 laplace scale key x rest noisy_params g)
  from "2.prems"(1) obtain noise g1 where s: "laplace scale g = Inr (noise, g1)"
    and rng: "\<bar>x\<bar> < dbl_limit"
    and l: "noise_loop laplace scale rest
              (AList.update key (Scalar (Num (x + noise))) noisy_params) g1 = Inr (r, g')"
    by (auto split: sum.splits prod.splits if_splits)
  from "2.prems" have fresh: "key \<notin> fst ` set noisy_params" by auto
  have "map fst r = map fst (AList.update key (Scalar (Num (x + noise))) noisy_params) @ map fst rest"
    using "2.prems" by (intro "2.IH"[OF s refl rng l]) (auto simp: dom_update)
  then show ?case by (simp add: update_fresh[OF fresh])
next
  case (3 laplace scale key vs rest noisy_params g)
  from "3.prems"(1) obtain ws g1 where s: "noisy_list laplace scale vs g = Inr (ws, g1)"
    and l: "noise_loop laplace scale rest (AList.update key (Seq ws) noisy_params) g1 = Inr (r, g')"
    by (auto split: sum.splits prod.splits)
  from "3.prems" have fresh: "key \<notin> fst ` set noisy_params" by auto
  have "map fst r = map fst (AList.update key (Seq ws) noisy_params) @ map fst rest"
    using "3.prems" by (intro "3.IH"[OF s refl l]) (auto simp: dom_update)
  then show ?case by (simp add: update_fresh[OF fresh])
next
  case (4 laplace scale key s rest noisy_params g)
  from "4.prems" have fresh: "key \<notin> fst ` set noisy_params" by auto
  have "map fst r = map fst (AList.update key (Scalar (Str s)) noisy_params) @ map fst rest"
    using "4.prems" by (intro "4.IH") (auto simp: dom_update)
  then show ?case by (simp add: update_fresh[OF fresh])
next
  case (5 laplace scale key rest noisy_params g)
  from "5.prems" have fresh: "key \<notin> fst ` set noisy_params" by auto
  have "map fst r = map fst (AList.update key (Scalar Null) noisy_params) @ map fst rest"
    using "5.prems" by (intro "5.IH") (auto simp: dom_update)
  then show ?case by (simp add: update_fresh[OF fresh])
next
  case (6 laplace scale key vs rest noisy_params g)
  from "6.prems" have fresh: "key \<notin> fst ` set noisy_params" by auto
  have "map fst r = map fst (AList.update key (Tup vs) noisy_params) @ map fst rest"
    using "6.prems" by (intro "6.IH") (auto simp: dom_update)
  then show ?case by (simp add: update_fresh[OF fresh])
qed

text \<open>
  What the loop does when the sampler accepts the scale, by the kind of mapping: it returns, or
  it raises \<^verbatim>\<open>TypeError\<close> at a list element that is no number, or it raises
  \<^verbatim>\<open>OverflowError\<close> at a number beyond the range of the doubles.
\<close>

lemma noise_loop_total:
  assumes "\<And>g. \<exists>x g'. laplace scale g = Inr (x, g')"
    and "lists_numeric ps" and "numbers_in_range ps"
  shows "\<exists>r g'. noise_loop laplace scale ps acc g = Inr (r, g')"
  using assms(2,3)
proof (induction ps arbitrary: acc g)
  case Nil
  show ?case by simp
next
  case (Cons p ps)
  obtain key v where p: "p = (key, v)" by (cases p)
  from Cons.prems have rest: "lists_numeric ps" "numbers_in_range ps"
    by (simp_all add: lists_numeric_def numbers_in_range_def)
  from Cons.prems p have hd: "numeric_list v" "value_in_range v"
    by (simp_all add: lists_numeric_def numbers_in_range_def)
  show ?case
  proof (cases v)
    case (Scalar a)
    show ?thesis
    proof (cases a)
      case (Num x)
      obtain noise g1 where s: "laplace scale g = Inr (noise, g1)" using assms(1) by blast
      from hd Scalar Num have x: "\<bar>x\<bar> < dbl_limit" by simp
      from Cons.IH[OF rest, of "AList.update key (Scalar (Num (x + noise))) acc" g1]
      show ?thesis by (simp add: p Scalar Num s x)
    next
      case (Str s)
      from Cons.IH[OF rest, of "AList.update key (Scalar (Str s)) acc" g]
      show ?thesis by (simp add: p Scalar Str)
    next
      case Null
      from Cons.IH[OF rest, of "AList.update key (Scalar Null) acc" g]
      show ?thesis by (simp add: p Scalar Null)
    qed
  next
    case (Seq vs)
    with hd have nums: "list_all is_num vs" "list_all in_range vs" by simp_all
    have "\<exists>ws g'. noisy_list laplace scale vs g = Inr (ws, g')"
      using assms(1) nums by (rule noisy_list_total)
    then obtain ws g1 where s: "noisy_list laplace scale vs g = Inr (ws, g1)" by blast
    from Cons.IH[OF rest, of "AList.update key (Seq ws) acc" g1]
    show ?thesis by (simp add: p Seq s)
  next
    case (Tup vs)
    from Cons.IH[OF rest, of "AList.update key (Tup vs) acc" g]
    show ?thesis by (simp add: p Tup)
  qed
qed

lemma noise_loop_type_error:
  assumes "\<And>g. \<exists>x g'. laplace scale g = Inr (x, g')"
    and "\<not> lists_numeric ps" and "numbers_in_range ps"
  shows "noise_loop laplace scale ps acc g = Inl TypeError"
  using assms(2,3)
proof (induction ps arbitrary: acc g)
  case Nil
  then show ?case by (simp add: lists_numeric_def)
next
  case (Cons p ps)
  obtain key v where p: "p = (key, v)" by (cases p)
  from Cons.prems have rng: "numbers_in_range ps"
    by (simp add: numbers_in_range_def)
  from Cons.prems p have hd: "value_in_range v"
    by (simp add: numbers_in_range_def)
  from Cons.prems p have alt: "\<not> numeric_list v \<or> \<not> lists_numeric ps"
    by (simp add: lists_numeric_def)
  show ?case
  proof (cases v)
    case (Scalar a)
    with alt have rest: "\<not> lists_numeric ps" by simp
    show ?thesis
    proof (cases a)
      case (Num x)
      obtain noise g1 where s: "laplace scale g = Inr (noise, g1)" using assms(1) by blast
      from hd Scalar Num have x: "\<bar>x\<bar> < dbl_limit" by simp
      from Cons.IH[OF rest rng, of "AList.update key (Scalar (Num (x + noise))) acc" g1]
      show ?thesis by (simp add: p Scalar Num s x)
    next
      case (Str s)
      from Cons.IH[OF rest rng, of "AList.update key (Scalar (Str s)) acc" g]
      show ?thesis by (simp add: p Scalar Str)
    next
      case Null
      from Cons.IH[OF rest rng, of "AList.update key (Scalar Null) acc" g]
      show ?thesis by (simp add: p Scalar Null)
    qed
  next
    case (Seq vs)
    with hd have inr: "list_all in_range vs" by simp
    show ?thesis
    proof (cases "list_all is_num vs")
      case True
      with alt Seq have rest: "\<not> lists_numeric ps" by simp
      have "\<exists>ws g'. noisy_list laplace scale vs g = Inr (ws, g')"
        using assms(1) True inr by (rule noisy_list_total)
      then obtain ws g1 where s: "noisy_list laplace scale vs g = Inr (ws, g1)" by blast
      from Cons.IH[OF rest rng, of "AList.update key (Seq ws) acc" g1]
      show ?thesis by (simp add: p Seq s)
    next
      case False
      have "noisy_list laplace scale vs g = Inl TypeError"
        using assms(1) False inr by (rule noisy_list_type_error)
      then show ?thesis by (simp add: p Seq)
    qed
  next
    case (Tup vs)
    with alt have rest: "\<not> lists_numeric ps" by simp
    from Cons.IH[OF rest rng, of "AList.update key (Tup vs) acc" g]
    show ?thesis by (simp add: p Tup)
  qed
qed

lemma noise_loop_overflow:
  assumes "\<And>g. \<exists>x g'. laplace scale g = Inr (x, g')"
    and "lists_numeric ps" and "\<not> numbers_in_range ps"
  shows "noise_loop laplace scale ps acc g = Inl OverflowError"
  using assms(2,3)
proof (induction ps arbitrary: acc g)
  case Nil
  then show ?case by (simp add: numbers_in_range_def)
next
  case (Cons p ps)
  obtain key v where p: "p = (key, v)" by (cases p)
  from Cons.prems have num: "lists_numeric ps"
    by (simp add: lists_numeric_def)
  from Cons.prems p have hd: "numeric_list v"
    by (simp add: lists_numeric_def)
  from Cons.prems p have alt: "\<not> value_in_range v \<or> \<not> numbers_in_range ps"
    by (simp add: numbers_in_range_def)
  show ?case
  proof (cases v)
    case (Scalar a)
    show ?thesis
    proof (cases a)
      case (Num x)
      obtain noise g1 where s: "laplace scale g = Inr (noise, g1)" using assms(1) by blast
      show ?thesis
      proof (cases "\<bar>x\<bar> < dbl_limit")
        case True
        with alt Scalar Num have rest: "\<not> numbers_in_range ps" by simp
        from Cons.IH[OF num rest, of "AList.update key (Scalar (Num (x + noise))) acc" g1]
        show ?thesis by (simp add: p Scalar Num s True)
      next
        case False
        then show ?thesis by (simp add: p Scalar Num s)
      qed
    next
      case (Str s)
      with alt Scalar have rest: "\<not> numbers_in_range ps" by simp
      from Cons.IH[OF num rest, of "AList.update key (Scalar (Str s)) acc" g]
      show ?thesis by (simp add: p Scalar Str)
    next
      case Null
      with alt Scalar have rest: "\<not> numbers_in_range ps" by simp
      from Cons.IH[OF num rest, of "AList.update key (Scalar Null) acc" g]
      show ?thesis by (simp add: p Scalar Null)
    qed
  next
    case (Seq vs)
    with hd have nums: "list_all is_num vs" by simp
    show ?thesis
    proof (cases "list_all in_range vs")
      case True
      with alt Seq have rest: "\<not> numbers_in_range ps" by simp
      have "\<exists>ws g'. noisy_list laplace scale vs g = Inr (ws, g')"
        using assms(1) nums True by (rule noisy_list_total)
      then obtain ws g1 where s: "noisy_list laplace scale vs g = Inr (ws, g1)" by blast
      from Cons.IH[OF num rest, of "AList.update key (Seq ws) acc" g1]
      show ?thesis by (simp add: p Seq s)
    next
      case False
      have "noisy_list laplace scale vs g = Inl OverflowError"
        using assms(1) nums False by (rule noisy_list_overflow)
      then show ?thesis by (simp add: p Seq)
    qed
  next
    case (Tup vs)
    with alt have rest: "\<not> numbers_in_range ps" by simp
    from Cons.IH[OF num rest, of "AList.update key (Tup vs) acc" g]
    show ?thesis by (simp add: p Tup)
  qed
qed

lemma noise_returns_loop:
  "add_differential_privacy_noise laplace parameters epsilon sensitivity g = Inr (r, g') \<Longrightarrow>
     \<exists>scale. noise_loop laplace scale parameters [] g = Inr (r, g')"
  by (auto simp: add_differential_privacy_noise_def split: sum.splits)

text \<open>
  Claim C10, as amended.  Whenever \<open>add_differential_privacy_noise\<close> returns, the mapping it
  returns has exactly the keys of its input (for a well-formed \<^verbatim>\<open>dict\<close>, in the same order),
  every value that is neither a number nor a list is carried over unchanged, a number is
  replaced by a number, and a list by a list of the same length.  With \<open>epsilon\<close> and
  \<open>sensitivity\<close> within the range of the doubles, \<open>epsilon\<close> not zero and a sampler that
  accepts the scale \<open>sensitivity / epsilon\<close>, the call returns when every list holds only
  numbers and all numbers lie within the range of the doubles; it raises \<^verbatim>\<open>TypeError\<close> when
  the numbers lie within that range and some list holds an element that is no number; and it
  raises \<^verbatim>\<open>OverflowError\<close> when the lists hold only numbers and some number lies beyond that
  range.  With \<open>epsilon\<close> zero and \<open>sensitivity\<close> within the range of the doubles it raises
  \<^verbatim>\<open>ZeroDivisionError\<close>.
\<close>

theorem noise_preserves_keys_and_other_values:
  "(add_differential_privacy_noise laplace parameters epsilon sensitivity g = Inr (r, g') \<longrightarrow>
      set (map fst r) = set (map fst parameters))
   \<and> (add_differential_privacy_noise laplace parameters epsilon sensitivity g = Inr (r, g')
        \<and> distinct (map fst parameters) \<longrightarrow>
          map fst r = map fst parameters
          \<and> (\<forall>k a. map_of parameters k = Some (Scalar a) \<and> num_of a = None \<longrightarrow>
                 map_of r k = Some (Scalar a))
          \<and> (\<forall>k vs. map_of parameters k = Some (Tup vs) \<longrightarrow> map_of r k = Some (Tup vs))
          \<and> (\<forall>k x. map_of parameters k = Some (Scalar (Num x)) \<longrightarrow>
                 (\<exists>y. map_of r k = Some (Scalar (Num y))))
          \<and> (\<forall>k vs. map_of parameters k = Some (Seq vs) \<longrightarrow>
                 (\<exists>ws. map_of r k = Some (Seq ws) \<and> length ws = length vs)))
   \<and> (num_val epsilon \<noteq> 0 \<and> \<bar>num_val epsilon\<bar> < dbl_limit \<and> \<bar>num_val sensitivity\<bar> < dbl_limit
        \<and> (\<forall>g. \<exists>x g'. laplace (num_val sensitivity / num_val epsilon) g = Inr (x, g')) \<longrightarrow>
          (lists_numeric parameters \<and> numbers_in_range parameters \<longrightarrow>
             (\<exists>r g'. add_differential_privacy_noise laplace parameters epsilon sensitivity g
                       = Inr (r, g')))
          \<and> (\<not> lists_numeric parameters \<and> numbers_in_range parameters \<longrightarrow>
               add_differential_privacy_noise laplace parameters epsilon sensitivity g
                 = Inl TypeError)
          \<and> (lists_numeric parameters \<and> \<not> numbers_in_range parameters \<longrightarrow>
               add_differential_privacy_noise laplace parameters epsilon sensitivity g
                 = Inl OverflowError))
   \<and> (num_val epsilon = 0 \<and> \<bar>num_val sensitivity\<bar> < dbl_limit \<longrightarrow>
        add_differential_privacy_noise laplace parameters epsilon sensitivity g
          = Inl ZeroDivisionError)"
proof -
  have keys: "add_differential_privacy_noise laplace parameters epsilon sensitivity g = Inr (r, g')
      \<longrightarrow> set (map fst r) = set (map fst parameters)"
  proof
    assume "add_differential_privacy_noise laplace parameters epsilon sensitivity g = Inr (r, g')"
    from noise_returns_loop[OF this]
    obtain scale where "noise_loop laplace scale parameters [] g = Inr (r, g')"
      by (elim exE)
    from noise_loop_keys[OF this] show "set (map fst r) = set (map fst parameters)" by simp
  qed
  have frame: "add_differential_privacy_noise laplace parameters epsilon sensitivity g = Inr (r, g')
        \<and> distinct (map fst parameters) \<longrightarrow>
          map fst r = map fst parameters
          \<and> (\<forall>k a. map_of parameters k = Some (Scalar a) \<and> num_of a = None \<longrightarrow>
                 map_of r k = Some (Scalar a))
          \<and> (\<forall>k vs. map_of parameters k = Some (Tup vs) \<longrightarrow> map_of r k = Some (Tup vs))
          \<and> (\<forall>k x. map_of parameters k = Some (Scalar (Num x)) \<longrightarrow>
                 (\<exists>y. map_of r k = Some (Scalar (Num y))))
          \<and> (\<forall>k vs. map_of parameters k = Some (Seq vs) \<longrightarrow>
                 (\<exists>ws. map_of r k = Some (Seq ws) \<and> length ws = length vs))"
  proof (intro impI, elim conjE)
    assume run: "add_differential_privacy_noise laplace parameters epsilon sensitivity g = Inr (r, g')"
      and d: "distinct (map fst parameters)"
    from noise_returns_loop[OF run]
    obtain scale where l: "noise_loop laplace scale parameters [] g = Inr (r, g')"
      by (elim exE)
    have o: "map fst r = map fst parameters"
      using noise_loop_order[OF l d] by simp
    have f1: "\<forall>k a. map_of parameters k = Some (Scalar a) \<and> num_of a = None \<longrightarrow>
                 map_of r k = Some (Scalar a)"
    proof (intro allI impI, elim conjE)
      fix k a assume m: "map_of parameters k = Some (Scalar a)" and n: "num_of a = None"
      from noise_loop_present[OF l d m] n show "map_of r k = Some (Scalar a)"
        by (cases a) auto
    qed
    have f0: "\<forall>k vs. map_of parameters k = Some (Tup vs) \<longrightarrow> map_of r k = Some (Tup vs)"
    proof (intro allI impI)
      fix k vs assume m: "map_of parameters k = Some (Tup vs)"
      from noise_loop_present[OF l d m] show "map_of r k = Some (Tup vs)"
        by auto
    qed
    have f2: "\<forall>k x. map_of parameters k = Some (Scalar (Num x)) \<longrightarrow>
                 (\<exists>y. map_of r k = Some (Scalar (Num y)))"
    proof (intro allI impI)
      fix k x assume m: "map_of parameters k = Some (Scalar (Num x))"
      from noise_loop_present[OF l d m] show "\<exists>y. map_of r k = Some (Scalar (Num y))"
        by auto
    qed
    have f3: "\<forall>k vs. map_of parameters k = Some (Seq vs) \<longrightarrow>
                 (\<exists>ws. map_of r k = Some (Seq ws) \<and> length ws = length vs)"
    proof (intro allI impI)
      fix k vs assume m: "map_of parameters k = Some (Seq vs)"
      from noise_loop_present[OF l d m]
      show "\<exists>ws. map_of r k = Some (Seq ws) \<and> length ws = length vs"
        by auto
    qed
    show "map fst r = map fst parameters
          \<and> (\<forall>k a. map_of parameters k = Some (Scalar a) \<and> num_of a = None \<longrightarrow>
                 map_of r k = Some (Scalar a))
          \<and> (\<forall>k vs. map_of parameters k = Some (Tup vs) \<longrightarrow> map_of r k = Some (Tup vs))
          \<and> (\<forall>k x. map_of parameters k = Some (Scalar (Num x)) \<longrightarrow>
                 (\<exists>y. map_of r k = Some (Scalar (Num y))))
          \<and> (\<forall>k vs. map_of parameters k = Some (Seq vs) \<longrightarrow>
                 (\<exists>ws. map_of r k = Some (Seq ws) \<and> length ws = length vs))"
      by (intro conjI o f1 f0 f2 f3)
  qed
  have outcome: "num_val epsilon \<noteq> 0 \<and> \<bar>num_val epsilon\<bar> < dbl_limit
        \<and> \<bar>num_val sensitivity\<bar> < dbl_limit
        \<and> (\<forall>g. \<exists>x g'. laplace (num_val sensitivity / num_val epsilon) g = Inr (x, g')) \<longrightarrow>
          (lists_numeric parameters \<and> numbers_in_range parameters \<longrightarrow>
             (\<exists>r g'. add_differential_privacy_noise laplace parameters epsilon sensitivity g
                       = Inr (r, g')))
          \<and> (\<not> lists_numeric parameters \<and> numbers_in_range parameters \<longrightarrow>
               add_differential_privacy_noise laplace parameters epsilon sensitivity g
                 = Inl TypeError)
          \<and> (lists_numeric parameters \<and> \<not> numbers_in_range parameters \<longrightarrow>
               add_differential_privacy_noise laplace parameters epsilon sensitivity g
                 = Inl OverflowError)"
  proof (intro impI, elim conjE)
    assume e: "num_val epsilon \<noteq> 0" and er: "\<bar>num_val epsilon\<bar> < dbl_limit"
      and sr: "\<bar>num_val sensitivity\<bar> < dbl_limit"
      and s: "\<forall>g. \<exists>x g'. laplace (num_val sensitivity / num_val epsilon) g = Inr (x, g')"
    from s have s': "\<And>g. \<exists>x g'. laplace (num_val sensitivity / num_val epsilon) g = Inr (x, g')"
      by blast
    have run: "add_differential_privacy_noise laplace parameters epsilon sensitivity g
                 = noise_loop laplace (num_val sensitivity / num_val epsilon) parameters [] g"
      using py_truediv_in_range[OF e er sr] by (simp add: add_differential_privacy_noise_def)
    have t: "lists_numeric parameters \<and> numbers_in_range parameters \<longrightarrow>
             (\<exists>r g'. add_differential_privacy_noise laplace parameters epsilon sensitivity g
                       = Inr (r, g'))"
      unfolding run using noise_loop_total[of laplace _ parameters "[]" g, OF s'] by blast
    have ty: "\<not> lists_numeric parameters \<and> numbers_in_range parameters \<longrightarrow>
               add_differential_privacy_noise laplace parameters epsilon sensitivity g
                 = Inl TypeError"
      unfolding run using noise_loop_type_error[of laplace _ parameters "[]" g, OF s'] by blast
    have ov: "lists_numeric parameters \<and> \<not> numbers_in_range parameters \<longrightarrow>
               add_differential_privacy_noise laplace parameters epsilon sensitivity g
                 = Inl OverflowError"
      unfolding run using noise_loop_overflow[of laplace _ parameters "[]" g, OF s'] by blast
    show "(lists_numeric parameters \<and> numbers_in_range parameters \<longrightarrow>
             (\<exists>r g'. add_differential_privacy_noise laplace parameters epsilon sensitivity g
                       = Inr (r, g')))
          \<and> (\<not> lists_numeric parameters \<and> numbers_in_range parameters \<longrightarrow>
               add_differential_privacy_noise laplace parameters epsilon sensitivity g
                 = Inl TypeError)
          \<and> (lists_numeric parameters \<and> \<not> numbers_in_range parameters \<longrightarrow>
               add_differential_privacy_noise laplace parameters epsilon sensitivity g
                 = Inl OverflowError)"
      by (intro conjI t ty ov)
  qed
  have zero: "num_val epsilon = 0 \<and> \<bar>num_val sensitivity\<bar> < dbl_limit \<longrightarrow>
        add_differential_privacy_noise laplace parameters epsilon sensitivity g
          = Inl ZeroDivisionError"
    using py_truediv_by_zero[of epsilon sensitivity]
    by (simp add: add_differential_privacy_noise_def)
  show ?thesis
    by (intro conjI keys frame outcome zero)
qed

text \<open>
  The theorem at a mapping with a number, a list of numbers, a string, \<^verbatim>\<open>None\<close> and a tuple,
  with \<open>epsilon = 2.0\<close> and \<open>sensitivity = 1\<close>; at a list of strings with \<open>epsilon = 1\<close>; at
  the number \<open>2 ^ 1024\<close>; and at \<open>epsilon = 0\<close>.
\<close>

theorem noise_preserves_keys_and_other_values_witness:
  "add_differential_privacy_noise toy_sampler sample_parameters (PyFloat 2) (PyInt 1) 0
     = Inr ([(''bias'', Scalar (Num (65 / 16))), (''v'', Seq [Num (9 / 8), Num (35 / 16)]),
             (''note'', Scalar (Str ''svm'')), (''extra'', Scalar Null),
             (''shape'', Tup [Num 2, Num 3])], 3)
   \<and> distinct (map fst sample_parameters)
   \<and> num_val (PyFloat 2) \<noteq> 0 \<and> \<bar>num_val (PyFloat 2)\<bar> < dbl_limit
   \<and> \<bar>num_val (PyInt 1)\<bar> < dbl_limit
   \<and> (\<forall>g. \<exists>x g'. toy_sampler (num_val (PyInt 1) / num_val (PyFloat 2)) g = Inr (x, g'))
   \<and> lists_numeric sample_parameters \<and> numbers_in_range sample_parameters
   \<and> (\<exists>r g'. add_differential_privacy_noise toy_sampler sample_parameters (PyFloat 2) (PyInt 1) 5
                = Inr (r, g'))
   \<and> set (map fst [(''bias'', Scalar (Num (65 / 16))), (''v'', Seq [Num (9 / 8), Num (35 / 16)]),
             (''note'', Scalar (Str ''svm'')), (''extra'', Scalar Null),
             (''shape'', Tup [Num 2, Num 3])])
       = set (map fst sample_parameters)
   \<and> map_of sample_parameters ''note'' = Some (Scalar (Str ''svm'')) \<and> num_of (Str ''svm'') = None
   \<and> map_of [(''bias'', Scalar (Num (65 / 16))), (''v'', Seq [Num (9 / 8), Num (35 / 16)]),
             (''note'', Scalar (Str ''svm'')), (''extra'', Scalar Null),
             (''shape'', Tup [Num 2, Num 3])] ''note''
       = Some (Scalar (Str ''svm''))
   \<and> \<not> lists_numeric [(''w'', Scalar (Num 1)), (''labels'', Seq [Num 0, Str ''a''])]
   \<and> numbers_in_range [(''w'', Scalar (Num 1)), (''labels'', Seq [Num 0, Str ''a''])]
   \<and> add_differential_privacy_noise toy_sampler
        [(''w'', Scalar (Num 1)), (''labels'', Seq [Num 0, Str ''a''])] (PyFloat 2) (PyInt 1) 0
       = Inl TypeError
   \<and> lists_numeric [(''w'', Scalar (Num (2 ^ 1024)))]
   \<and> \<not> numbers_in_range [(''w'', Scalar (Num (2 ^ 1024)))]
   \<and> add_differential_privacy_noise toy_sampler [(''w'', Scalar (Num (2 ^ 1024)))]
        (PyFloat 2) (PyInt 1) 0
       = Inl OverflowError
   \<and> num_val (PyInt 0) = 0
   \<and> add_differential_privacy_noise toy_sampler sample_parameters (PyInt 0) (PyInt 1) 0
       = Inl ZeroDivisionError"
proof -
  let ?r = "[(''bias'', Scalar (Num (65 / 16))), (''v'', Seq [Num (9 / 8), Num (35 / 16)]),
             (''note'', Scalar (Str ''svm'')), (''extra'', Scalar Null),
             (''shape'', Tup [Num 2, Num 3])]"
  let ?bad = "[(''w'', Scalar (Num 1)), (''labels'', Seq [Num 0, Str ''a''])]"
  let ?big = "[(''w'', Scalar (Num (2 ^ 1024)))]"
  have small: "\<bar>0::real\<bar> < dbl_limit" "\<bar>1::real\<bar> < dbl_limit" "\<bar>2::real\<bar> < dbl_limit"
    "\<bar>4::real\<bar> < dbl_limit"
    by (rule small_in_range, simp)+
  have huge: "\<not> \<bar>2 ^ 1024 :: real\<bar> < dbl_limit" by (simp add: dbl_limit_def)
  have run: "add_differential_privacy_noise toy_sampler sample_parameters (PyFloat 2) (PyInt 1) 0
               = Inr (?r, 3)"
    using small by (simp add: add_differential_privacy_noise_def sample_parameters_def toy_sampler_def)
  have d: "distinct (map fst sample_parameters)" by (simp add: sample_parameters_def)
  have e0: "num_val (PyFloat 2) \<noteq> 0" by simp
  have e1: "\<bar>num_val (PyFloat 2)\<bar> < dbl_limit" using small by simp
  have e2: "\<bar>num_val (PyInt 1)\<bar> < dbl_limit" using small by simp
  have t1: "\<forall>g. \<exists>x g'. toy_sampler (num_val (PyInt 1) / num_val (PyFloat 2)) g = Inr (x, g')"
    unfolding toy_sampler_def by blast
  have ln: "lists_numeric sample_parameters"
    by (simp add: sample_parameters_def lists_numeric_def)
  have nr: "numbers_in_range sample_parameters"
    using small by (simp add: sample_parameters_def numbers_in_range_def)
  have pre: "num_val (PyFloat 2) \<noteq> 0 \<and> \<bar>num_val (PyFloat 2)\<bar> < dbl_limit
      \<and> \<bar>num_val (PyInt 1)\<bar> < dbl_limit
      \<and> (\<forall>g. \<exists>x g'. toy_sampler (num_val (PyInt 1) / num_val (PyFloat 2)) g = Inr (x, g'))"
    by (intro conjI e0 e1 e2 t1)
  have both: "lists_numeric sample_parameters \<and> numbers_in_range sample_parameters"
    using ln nr by (rule conjI)
  have total: "\<exists>r g'. add_differential_privacy_noise toy_sampler sample_parameters
                   (PyFloat 2) (PyInt 1) 5 = Inr (r, g')"
    by (rule noise_preserves_keys_and_other_values[of toy_sampler sample_parameters
          "PyFloat 2" "PyInt 1" 5, THEN conjunct2, THEN conjunct2, THEN conjunct1, rule_format,
          OF pre, THEN conjunct1, rule_format, OF both])
  have bl: "\<not> lists_numeric ?bad" by (simp add: lists_numeric_def)
  have br: "numbers_in_range ?bad" using small by (simp add: numbers_in_range_def)
  have bb: "\<not> lists_numeric ?bad \<and> numbers_in_range ?bad" using bl br by (rule conjI)
  have terr: "add_differential_privacy_noise toy_sampler ?bad (PyFloat 2) (PyInt 1) 0 = Inl TypeError"
    by (rule noise_preserves_keys_and_other_values[of toy_sampler ?bad
          "PyFloat 2" "PyInt 1" 0, THEN conjunct2, THEN conjunct2, THEN conjunct1, rule_format,
          OF pre, THEN conjunct2, THEN conjunct1, rule_format, OF bb])
  have gl: "lists_numeric ?big" by (simp add: lists_numeric_def)
  have gr: "\<not> numbers_in_range ?big" using huge by (simp add: numbers_in_range_def)
  have gb: "lists_numeric ?big \<and> \<not> numbers_in_range ?big" using gl gr by (rule conjI)
  have oerr: "add_differential_privacy_noise toy_sampler ?big (PyFloat 2) (PyInt 1) 0
                = Inl OverflowError"
    by (rule noise_preserves_keys_and_other_values[of toy_sampler ?big
          "PyFloat 2" "PyInt 1" 0, THEN conjunct2, THEN conjunct2, THEN conjunct1, rule_format,
          OF pre, THEN conjunct2, THEN conjunct2, rule_format, OF gb])
  have z0: "num_val (PyInt 0) = 0" by simp
  have zz: "num_val (PyInt 0) = 0 \<and> \<bar>num_val (PyInt 1)\<bar> < dbl_limit" using z0 e2 by (rule conjI)
  have zerr: "add_differential_privacy_noise toy_sampler sample_parameters (PyInt 0) (PyInt 1) 0
                = Inl ZeroDivisionError"
    by (rule noise_preserves_keys_and_other_values[of toy_sampler sample_parameters
          "PyInt 0" "PyInt 1" 0, THEN conjunct2, THEN conjunct2, THEN conjunct2, rule_format,
          OF zz])
  have n: "map_of sample_parameters ''note'' = Some (Scalar (Str ''svm'')) \<and> num_of (Str ''svm'') = None"
    by (simp add: sample_parameters_def)
  note inst = noise_preserves_keys_and_other_values[of toy_sampler sample_parameters
      "PyFloat 2" "PyInt 1" 0 ?r 3]
  have keys: "set (map fst ?r) = set (map fst sample_parameters)"
    by (rule inst[THEN conjunct1, rule_format, OF run])
  have rd: "add_differential_privacy_noise toy_sampler sample_parameters (PyFloat 2) (PyInt 1) 0
              = Inr (?r, 3)
      \<and> distinct (map fst sample_parameters)"
    using run d by (rule conjI)
  have "\<forall>k a. map_of sample_parameters k = Some (Scalar a) \<and> num_of a = None \<longrightarrow>
                 map_of ?r k = Some (Scalar a)"
    using inst[THEN conjunct2, THEN conjunct1, rule_format, OF rd] by (elim conjE)
  then have frame: "map_of ?r ''note'' = Some (Scalar (Str ''svm''))"
    using n by (elim allE[of _ "''note''"] allE[of _ "Str ''svm''"] impE)
  note n1 = n[THEN conjunct1] and n2 = n[THEN conjunct2]
  show ?thesis
    by (intro conjI)
      (fact run d e0 e1 e2 t1 ln nr total keys n1 n2 frame bl br terr gl gr oerr z0 zerr)+
qed

text \<open>
  Claim C10 as stated, for every parameter mapping, fails: a list value with an element that
  is not a number makes the call raise \<^verbatim>\<open>TypeError\<close> instead of returning a mapping, an
  \<^verbatim>\<open>int\<close> beyond the range of the doubles makes it raise \<^verbatim>\<open>OverflowError\<close>, and \<open>epsilon = 0\<close>
  makes it raise \<^verbatim>\<open>ZeroDivisionError\<close>.
\<close>

theorem noise_fails_on_non_numeric_list_element:
  "add_differential_privacy_noise toy_sampler [(''labels'', Seq [Str ''a''])]
       (PyFloat 1) (PyFloat 1) 0
     = Inl TypeError
   \<and> add_differential_privacy_noise toy_sampler [(''w'', Scalar (Num (10 ^ 400)))]
       (PyFloat 1) (PyFloat 1) 0
     = Inl OverflowError
   \<and> add_differential_privacy_noise toy_sampler [(''w'', Scalar (Num 1))]
       (PyFloat 0) (PyFloat 1) 0
     = Inl ZeroDivisionError"
proof -
  have huge: "\<not> \<bar>10 ^ 400 :: real\<bar> < dbl_limit" by (simp add: dbl_limit_def)
  have small: "\<bar>1::real\<bar> < dbl_limit" by (rule small_in_range) simp
  show ?thesis
    using huge small by (simp add: add_differential_privacy_noise_def toy_sampler_def)
qed


end
